theory Spec2Isabelle
  imports Complex_Main
begin

section \<open>JavaScript values used by the demo\<close>

text \<open>
  A TypeScript \<open>number\<close> handed to a setter is either a number or \<open>NaN\<close>; the
  coordinates are read as exact reals (rounding and the infinities are not modelled).
  Reading a property of \<open>null\<close> or \<open>undefined\<close> throws a \<open>TypeError\<close>.
\<close>

datatype jsnum = Num real | NaN

fun isNaN :: "jsnum \<Rightarrow> bool" where
  "isNaN NaN = True"
| "isNaN (Num r) = False"

datatype js_error = TypeError

text \<open>A pointer event, as far as the handlers read it: \<open>evt.data.global\<close>.\<close>

record pointer_event =
  global_x :: real
  global_y :: real

section \<open>Marker (src/app/marker/Marker.ts)\<close>

text \<open>
  The \<open>PIXI.Graphics\<close> of a marker, as far as \<open>Marker.ts\<close> reads and writes it: the
  position, the cursor, the fill of the circle, the flags \<open>interactive\<close> and
  \<open>dragging\<close>, and the names of the events that have a listener. A fresh
  \<open>PIXI.Graphics\<close> sits at the origin.
\<close>

record shape =
  shape_x :: real
  shape_y :: real
  cursor :: string
  fill :: "(string \<times> real) option"
  interactive :: bool
  dragging :: bool
  shape_listeners :: "string list"

definition new_Graphics :: shape where
  "new_Graphics =
     \<lparr>shape_x = 0, shape_y = 0, cursor = '''', fill = None, interactive = False,
      dragging = False, shape_listeners = []\<rparr>"

text \<open>
  A subscriber is a callback \<open>(id, x, y) => void\<close>; the only one the application
  registers is its own \<open>_onMarkerMoved\<close>.
\<close>

datatype subscriber = OnMarkerMoved

record marker =
  marker_id :: "string option"
  markerShape :: "shape option"
  subscribers :: "subscriber list"

text \<open>The constructor: no subscribers, no shape.\<close>

definition Marker :: marker where
  "Marker = \<lparr>marker_id = None, markerShape = None, subscribers = []\<rparr>"

text \<open>
  \<open>clear\<close>: the listeners are taken off the shape and the reference is dropped; the
  subscriber array is emptied.
\<close>

definition marker_clear :: "marker \<Rightarrow> marker" where
  "marker_clear m =
     (let m1 = (case markerShape m of
                  None \<Rightarrow> m
                | Some s \<Rightarrow> m\<lparr>markerShape := None\<rparr>)
      in if length (subscribers m1) > 0 then m1\<lparr>subscribers := []\<rparr> else m1)"

definition makeDraggable :: "shape \<Rightarrow> shape" where
  "makeDraggable s =
     s\<lparr>interactive := True, dragging := False,
       shape_listeners := shape_listeners s @
         [''mousedown'', ''touchstart'', ''mouseup'', ''mouseupoutside'',
          ''touchend'', ''touchendoutside'', ''mousemove'', ''touchmove'']\<rparr>"

text \<open>\<open>create(radius = 8, color = "#ff3300")\<close> returns the new shape and the marker.\<close>

definition marker_create :: "real \<Rightarrow> string \<Rightarrow> marker \<Rightarrow> shape \<times> marker" where
  "marker_create radius color m =
     (let m1 = (if markerShape m \<noteq> None then marker_clear m else m);
          s = makeDraggable (new_Graphics\<lparr>cursor := ''pointer'', fill := Some (color, radius)\<rparr>)
      in (s, m1\<lparr>markerShape := Some s\<rparr>))"

text \<open>The getters read through the shape reference without a guard.\<close>

definition get_x :: "marker \<Rightarrow> js_error + real" where
  "get_x m = (case markerShape m of None \<Rightarrow> Inl TypeError | Some s \<Rightarrow> Inr (shape_x s))"

definition get_y :: "marker \<Rightarrow> js_error + real" where
  "get_y m = (case markerShape m of None \<Rightarrow> Inl TypeError | Some s \<Rightarrow> Inr (shape_y s))"

text \<open>\<open>!isNaN(value) ? value : old\<close>\<close>

fun numberOr :: "jsnum \<Rightarrow> real \<Rightarrow> real" where
  "numberOr (Num r) old = r"
| "numberOr NaN old = old"

definition set_x :: "jsnum \<Rightarrow> marker \<Rightarrow> marker" where
  "set_x v m =
     (case markerShape m of
        None \<Rightarrow> m
      | Some s \<Rightarrow> m\<lparr>markerShape := Some (s\<lparr>shape_x := (if \<not> isNaN v then numberOr v (shape_x s) else shape_x s)\<rparr>)\<rparr>)"

definition set_y :: "jsnum \<Rightarrow> marker \<Rightarrow> marker" where
  "set_y v m =
     (case markerShape m of
        None \<Rightarrow> m
      | Some s \<Rightarrow> m\<lparr>markerShape := Some (s\<lparr>shape_y := (if \<not> isNaN v then numberOr v (shape_y s) else shape_y s)\<rparr>)\<rparr>)"

definition setCoords :: "jsnum \<Rightarrow> jsnum \<Rightarrow> marker \<Rightarrow> marker" where
  "setCoords vx vy m =
     (case markerShape m of
        None \<Rightarrow> m
      | Some s \<Rightarrow>
          m\<lparr>markerShape := Some (s\<lparr>shape_x := (if \<not> isNaN vx then numberOr vx (shape_x s) else shape_x s),
                                    shape_y := (if \<not> isNaN vy then numberOr vy (shape_y s) else shape_y s)\<rparr>)\<rparr>)"

definition addSubscriber :: "subscriber option \<Rightarrow> marker \<Rightarrow> marker" where
  "addSubscriber sub m =
     (case sub of None \<Rightarrow> m | Some f \<Rightarrow> m\<lparr>subscribers := subscribers m @ [f]\<rparr>)"

text \<open>
  The drag handlers. \<open>evt.currentTarget\<close> is the shape of the marker the listener sits
  on. \<open>__dragging\<close> moves the shape to the pointer and calls every subscriber with the
  id and the new coordinates; the calls are returned as a list, in the order of the
  subscriber array.
\<close>

definition startDrag :: "marker \<Rightarrow> marker" where
  "startDrag m =
     (case markerShape m of
        None \<Rightarrow> m
      | Some s \<Rightarrow> m\<lparr>markerShape := Some (s\<lparr>dragging := True\<rparr>)\<rparr>)"

definition endDrag :: "marker \<Rightarrow> marker" where
  "endDrag m =
     (case markerShape m of
        None \<Rightarrow> m
      | Some s \<Rightarrow> m\<lparr>markerShape := Some (s\<lparr>dragging := False\<rparr>)\<rparr>)"

definition marker_dragging ::
  "pointer_event \<Rightarrow> marker \<Rightarrow> marker \<times> (subscriber \<times> string option \<times> real \<times> real) list" where
  "marker_dragging evt m =
     (case markerShape m of
        None \<Rightarrow> (m, [])
      | Some s \<Rightarrow>
          if dragging s then
            (m\<lparr>markerShape := Some (s\<lparr>shape_x := global_x evt, shape_y := global_y evt\<rparr>)\<rparr>,
             map (\<lambda>f. (f, marker_id m, global_x evt, global_y evt)) (subscribers m))
          else (m, []))"

section \<open>The spline core (libs/CubicBezier.ts and libs/CubicBezierSpline.ts)\<close>

text \<open>
  The application imports \<open>TSMT$CubicBezier\<close> and \<open>TSMT$CubicBezierSpline\<close> from
  \<open>./libs\<close>; the two library files and the numerical classes they use are not among the
  sources at hand. Every definition of this section is therefore written from the
  specification of the core. Coordinates, parameters and lengths are exact reals.
\<close>

text \<open>Modelled from the spec: the Point \<open>{x, y}\<close> of the data model (missing
  \<open>TSMT$CubicBezierSpline\<close>).\<close>

type_synonym point = "real \<times> real"

text \<open>Modelled from the spec: the CubicSegment \<open>{p0, c0, c1, p1}\<close> of the data model
  (the class \<open>TSMT$CubicBezier\<close> is missing).\<close>

record segment =
  p0 :: point
  c0 :: point
  c1 :: point
  p1 :: point

text \<open>Modelled from the spec: the tension scalar, default 1/2 of the central difference
  (configuration of the missing \<open>TSMT$CubicBezierSpline\<close>).\<close>

definition tension :: real where
  "tension = 1 / 2"

text \<open>Modelled from the spec: the subdivision count of the quadrature, even, default 10
  (configuration of the missing integration class).\<close>

definition subdivisions :: nat where
  "subdivisions = 10"

text \<open>Modelled from the spec: the tolerance of the bisection, default 1e-6 (configuration of
  the missing bisection class).\<close>

definition epsilon :: real where
  "epsilon = 1 / 1000000"

text \<open>Modelled from the spec: the iteration budget of the bisection, default 50
  (configuration of the missing bisection class).\<close>

definition maxIterations :: nat where
  "maxIterations = 50"

text \<open>Modelled from the spec: parameters outside [0,1] are clamped to the nearest
  boundary (part of the missing \<open>TSMT$CubicBezier\<close>).\<close>

definition clamp01 :: "real \<Rightarrow> real" where
  "clamp01 t = (if t < 0 then 0 else if 1 < t then 1 else t)"

text \<open>Modelled from the spec: the cubic Bernstein form
  \<open>(1-t)^3 p0 + 3(1-t)^2 t c0 + 3(1-t) t^2 c1 + t^3 p1\<close> of one coordinate (missing
  \<open>TSMT$CubicBezier\<close>).\<close>

definition bernstein :: "real \<Rightarrow> real \<Rightarrow> real \<Rightarrow> real \<Rightarrow> real \<Rightarrow> real" where
  "bernstein a b c d t =
     (1 - t) ^ 3 * a + 3 * (1 - t) ^ 2 * t * b + 3 * (1 - t) * t ^ 2 * c + t ^ 3 * d"

text \<open>Modelled from the spec: the derivative of the Bernstein form,
  \<open>3(1-t)^2 (c0-p0) + 6(1-t) t (c1-c0) + 3 t^2 (p1-c1)\<close> (missing \<open>TSMT$CubicBezier\<close>).\<close>

definition bernsteinPrime :: "real \<Rightarrow> real \<Rightarrow> real \<Rightarrow> real \<Rightarrow> real \<Rightarrow> real" where
  "bernsteinPrime a b c d t =
     3 * (1 - t) ^ 2 * (b - a) + 6 * (1 - t) * t * (c - b) + 3 * t ^ 2 * (d - c)"

text \<open>Modelled from the spec: \<open>getX(t)\<close> of one segment, the parameter clamped to
  [0,1] as in all four evaluators (missing \<open>TSMT$CubicBezier\<close>).\<close>

definition getX :: "segment \<Rightarrow> real \<Rightarrow> real" where
  "getX g t = bernstein (fst (p0 g)) (fst (c0 g)) (fst (c1 g)) (fst (p1 g)) (clamp01 t)"

text \<open>Modelled from the spec: \<open>getY(t)\<close> of one segment (missing \<open>TSMT$CubicBezier\<close>).\<close>

definition getY :: "segment \<Rightarrow> real \<Rightarrow> real" where
  "getY g t = bernstein (snd (p0 g)) (snd (c0 g)) (snd (c1 g)) (snd (p1 g)) (clamp01 t)"

text \<open>Modelled from the spec: \<open>getXPrime(t)\<close>, the first coordinate of \<open>tangent(t)\<close>
  (missing \<open>TSMT$CubicBezier\<close>).\<close>

definition getXPrime :: "segment \<Rightarrow> real \<Rightarrow> real" where
  "getXPrime g t =
     bernsteinPrime (fst (p0 g)) (fst (c0 g)) (fst (c1 g)) (fst (p1 g)) (clamp01 t)"

text \<open>Modelled from the spec: \<open>getYPrime(t)\<close>, the second coordinate of \<open>tangent(t)\<close>
  (missing \<open>TSMT$CubicBezier\<close>).\<close>

definition getYPrime :: "segment \<Rightarrow> real \<Rightarrow> real" where
  "getYPrime g t =
     bernsteinPrime (snd (p0 g)) (snd (c0 g)) (snd (c1 g)) (snd (p1 g)) (clamp01 t)"

text \<open>Modelled from the spec: the sum of two points, for \<open>knot + tangent/3\<close> (missing
  \<open>TSMT$CubicBezierSpline\<close>).\<close>

definition padd :: "point \<Rightarrow> point \<Rightarrow> point" where
  "padd a b = (fst a + fst b, snd a + snd b)"

text \<open>Modelled from the spec: the difference of two points, for \<open>knot[i+1] - knot[i-1]\<close>
  (missing \<open>TSMT$CubicBezierSpline\<close>).\<close>

definition psub :: "point \<Rightarrow> point \<Rightarrow> point" where
  "psub a b = (fst a - fst b, snd a - snd b)"

text \<open>Modelled from the spec: a point times a scalar, for the tension and the third of a
  tangent (missing \<open>TSMT$CubicBezierSpline\<close>).\<close>

definition pscale :: "real \<Rightarrow> point \<Rightarrow> point" where
  "pscale k a = (k * fst a, k * snd a)"

text \<open>Modelled from the spec: the tangent estimate at knot \<open>i\<close> (missing
  \<open>TSMT$CubicBezierSpline\<close>): the tension times the central difference
  \<open>knot[i+1] - knot[i-1]\<close>, indices modulo the knot count when closed. At the two ends of
  an open spline the spec asks for a one-sided difference; it is read here as the
  difference between the end knot and the knot next to it.\<close>

definition knotTangent :: "bool \<Rightarrow> point list \<Rightarrow> nat \<Rightarrow> point" where
  "knotTangent cl ks i =
     (let n = length ks
      in if cl then pscale tension (psub (ks ! ((i + 1) mod n)) (ks ! ((i + n - 1) mod n)))
         else if i = 0 then pscale tension (psub (ks ! 1) (ks ! 0))
         else if i = n - 1 then pscale tension (psub (ks ! (n - 1)) (ks ! (n - 2)))
         else pscale tension (psub (ks ! (i + 1)) (ks ! (i - 1))))"

text \<open>Modelled from the spec: segment \<open>i\<close> runs from knot \<open>i\<close> to knot
  \<open>(i+1) mod n\<close> with \<open>c0 = knot_i + tangent_i/3\<close> and
  \<open>c1 = knot_(i+1) - tangent_(i+1)/3\<close> (missing \<open>TSMT$CubicBezierSpline\<close>).\<close>

definition buildSegment :: "bool \<Rightarrow> point list \<Rightarrow> nat \<Rightarrow> segment" where
  "buildSegment cl ks i =
     (let n = length ks; j = (i + 1) mod n
      in \<lparr>p0 = ks ! i,
          c0 = padd (ks ! i) (pscale (1 / 3) (knotTangent cl ks i)),
          c1 = psub (ks ! j) (pscale (1 / 3) (knotTangent cl ks j)),
          p1 = ks ! j\<rparr>)"

text \<open>Modelled from the spec: the segments of a knot sequence (missing
  \<open>TSMT$CubicBezierSpline\<close>): none for fewer than three knots, which is degenerate;
  otherwise one per consecutive knot pair, and one more from the last knot back to the
  first when closed.\<close>

definition buildSegments :: "bool \<Rightarrow> point list \<Rightarrow> segment list" where
  "buildSegments cl ks =
     (let n = length ks
      in if n < 3 then []
         else map (buildSegment cl ks) [0 ..< (if cl then n else n - 1)])"

text \<open>Modelled from the spec: the speed \<open>\<parallel>tangent(t)\<parallel>\<close> of a segment, the
  integrand of the arc length (the numerical integration class is missing).\<close>

definition speed :: "segment \<Rightarrow> real \<Rightarrow> real" where
  "speed g t = sqrt ((getXPrime g t) ^ 2 + (getYPrime g t) ^ 2)"

text \<open>Modelled from the spec: the composite Simpson rule on \<open>n\<close> subdivisions of
  \<open>[a, b]\<close> (the numerical integration class is missing).\<close>

definition simpson :: "nat \<Rightarrow> (real \<Rightarrow> real) \<Rightarrow> real \<Rightarrow> real \<Rightarrow> real" where
  "simpson n f a b =
     (let h = (b - a) / real n
      in h / 3 * (f a + f b
           + sum_list (map (\<lambda>k. (if odd k then 4 else 2) * f (a + real k * h)) [1 ..< n])))"

text \<open>Modelled from the spec: the ArcLengthIntegrator, the Simpson rule applied to the
  speed of a segment over \<open>[ta, tb]\<close> (the numerical integration class is missing).\<close>

definition arcLength :: "segment \<Rightarrow> real \<Rightarrow> real \<Rightarrow> real" where
  "arcLength g ta tb = simpson subdivisions (speed g) ta tb"

text \<open>Modelled from the spec: the global arc-length table,
  \<open>table[i] = table[i-1] + ArcLengthIntegrator(segments[i], 0, 1)\<close>, from a given
  \<open>table[i-1]\<close> on (missing \<open>TSMT$CubicBezierSpline\<close>).\<close>

fun cumulative :: "real \<Rightarrow> segment list \<Rightarrow> real list" where
  "cumulative acc [] = []"
| "cumulative acc (g # gs) = (acc + arcLength g 0 1) # cumulative (acc + arcLength g 0 1) gs"

text \<open>Modelled from the spec: the arc-length table of a segment list, starting from
  \<open>table[-1] = 0\<close> (missing \<open>TSMT$CubicBezierSpline\<close>).\<close>

definition buildTable :: "segment list \<Rightarrow> real list" where
  "buildTable gs = cumulative 0 gs"

text \<open>Modelled from the spec: \<open>length\<close>, the last value of the table, or 0 when there
  is none (missing \<open>TSMT$CubicBezierSpline\<close>).\<close>

definition tableLength :: "real list \<Rightarrow> real" where
  "tableLength table = (if table = [] then 0 else last table)"

text \<open>Modelled from the spec: the bisection of the ParameterInverter (the bisection class
  is missing). Each iteration evaluates \<open>f\<close> at the midpoint; the search stops when
  \<open>|f(mid) - target| < eps\<close> or when the iteration budget is used up, and then returns
  the last midpoint. The second component tells which of the two stopped the search:
  \<open>True\<close> for the tolerance test.\<close>

fun bisect :: "(real \<Rightarrow> real) \<Rightarrow> real \<Rightarrow> real \<Rightarrow> nat \<Rightarrow> real \<Rightarrow> real \<Rightarrow> real \<times> bool" where
  "bisect f target eps 0 lo hi = ((lo + hi) / 2, False)"
| "bisect f target eps (Suc k) lo hi =
     (let mid = (lo + hi) / 2; v = f mid
      in if \<bar>v - target\<bar> < eps then (mid, True)
         else if k = 0 then (mid, False)
         else if v < target then bisect f target eps k mid hi
         else bisect f target eps k lo mid)"

text \<open>Modelled from the spec: clamping of a global arc length to \<open>[0, length]\<close>
  (missing \<open>TSMT$CubicBezierSpline\<close>).\<close>

definition clampTo :: "real \<Rightarrow> real \<Rightarrow> real \<Rightarrow> real" where
  "clampTo lo hi s = (if s < lo then lo else if hi < s then hi else s)"

text \<open>Modelled from the spec: the first index whose cumulative value is at least \<open>s\<close>;
  the last index if there is none (missing \<open>TSMT$CubicBezierSpline\<close>).\<close>

fun locate :: "real list \<Rightarrow> real \<Rightarrow> nat" where
  "locate [] s = 0"
| "locate (c # cs) s = (if s \<le> c \<or> cs = [] then 0 else Suc (locate cs s))"

text \<open>Modelled from the spec: \<open>table[index-1]\<close>, with \<open>table[-1] = 0\<close> (missing
  \<open>TSMT$CubicBezierSpline\<close>).\<close>

definition tableBefore :: "real list \<Rightarrow> nat \<Rightarrow> real" where
  "tableBefore table idx = (if idx = 0 then 0 else table ! (idx - 1))"

text \<open>Modelled from the spec: the segment index of a global arc length and the local
  target \<open>s - table[index-1]\<close>, after clamping (missing \<open>TSMT$CubicBezierSpline\<close>).\<close>

definition localTarget :: "real list \<Rightarrow> real \<Rightarrow> nat \<times> real" where
  "localTarget table s =
     (let s' = clampTo 0 (tableLength table) s; idx = locate table s'
      in (idx, s' - tableBefore table idx))"

text \<open>Modelled from the spec: the search of the ParameterInverter, the bisection of the
  local arc-length function \<open>f(t) = ArcLengthIntegrator(segment, 0, t)\<close> on \<open>[0,1]\<close>
  (missing \<open>TSMT$CubicBezierSpline\<close>).\<close>

definition invertSearch :: "real list \<Rightarrow> segment list \<Rightarrow> real \<Rightarrow> real \<times> bool" where
  "invertSearch table gs s =
     (let (idx, local) = localTarget table s
      in bisect (\<lambda>t. arcLength (gs ! idx) 0 t) local epsilon maxIterations 0 1)"

text \<open>Modelled from the spec: the ParameterInverter, from a global arc length to a
  (segment index, parameter) pair, absent when there is no segment to search (missing
  \<open>TSMT$CubicBezierSpline\<close>).\<close>

definition invert :: "real list \<Rightarrow> segment list \<Rightarrow> real \<Rightarrow> (nat \<times> real) option" where
  "invert table gs s =
     (let idx = fst (localTarget table s)
      in if idx < length gs then Some (idx, fst (invertSearch table gs s)) else None)"

text \<open>Modelled from the spec: the forward arc length of a (segment index, parameter) pair,
  from the start of the spline (missing \<open>TSMT$CubicBezierSpline\<close>).\<close>

definition forwardLength :: "real list \<Rightarrow> segment list \<Rightarrow> nat \<times> real \<Rightarrow> real" where
  "forwardLength table gs it =
     tableBefore table (fst it) + arcLength (gs ! fst it) 0 (snd it)"

text \<open>Modelled from the spec: the Spline \<open>{knots, segments, closed, arcLengthTable}\<close>
  (missing \<open>TSMT$CubicBezierSpline\<close>). The flag \<open>invalidated\<close> records that the knots
  changed since the segments and the table were last built.\<close>

record spline =
  knots :: "point list"
  segments :: "segment list"
  closed :: bool
  arcLengthTable :: "real list"
  invalidated :: bool

text \<open>Modelled from the spec: the ValidationError of the error handling design (missing
  \<open>TSMT$CubicBezierSpline\<close>).\<close>

datatype spline_error = ValidationError

text \<open>Modelled from the spec: the initial state, an open spline without knots (missing
  \<open>TSMT$CubicBezierSpline\<close>).\<close>

definition new_Spline :: spline where
  "new_Spline =
     \<lparr>knots = [], segments = [], closed = False, arcLengthTable = [], invalidated = False\<rparr>"

text \<open>Modelled from the spec: \<open>clear()\<close> empties knots, segments and the arc-length table
  (missing \<open>TSMT$CubicBezierSpline\<close>).\<close>

definition spline_clear :: "spline \<Rightarrow> spline" where
  "spline_clear sp = sp\<lparr>knots := [], segments := [], arcLengthTable := [], invalidated := False\<rparr>"

text \<open>Modelled from the spec: recomputation of the segments and of the arc-length table
  from the knots and the closed flag (missing \<open>TSMT$CubicBezierSpline\<close>).\<close>

definition recompute :: "spline \<Rightarrow> spline" where
  "recompute sp =
     sp\<lparr>segments := buildSegments (closed sp) (knots sp),
        arcLengthTable := buildTable (buildSegments (closed sp) (knots sp)),
        invalidated := False\<rparr>"

text \<open>Modelled from the spec: \<open>addControlPoint(x, y)\<close> appends a knot and leaves the
  segments as they are until a recomputation (missing \<open>TSMT$CubicBezierSpline\<close>).\<close>

definition addControlPoint :: "real \<Rightarrow> real \<Rightarrow> spline \<Rightarrow> spline" where
  "addControlPoint x y sp = sp\<lparr>knots := knots sp @ [(x, y)], invalidated := True\<rparr>"

text \<open>Modelled from the spec: \<open>setData(xs, ys)\<close> replaces the whole knot sequence;
  arrays of different lengths are a ValidationError and nothing is changed (missing
  \<open>TSMT$CubicBezierSpline\<close>). The result is the error, if any, and the spline after the
  call.\<close>

definition setData :: "real list \<Rightarrow> real list \<Rightarrow> spline \<Rightarrow> spline_error option \<times> spline" where
  "setData xs ys sp =
     (if length xs \<noteq> length ys then (Some ValidationError, sp)
      else (None, sp\<lparr>knots := zip xs ys, invalidated := True\<rparr>))"

text \<open>Modelled from the spec: setting \<open>closed\<close> invalidates and recomputes at once
  (missing \<open>TSMT$CubicBezierSpline\<close>).\<close>

definition set_closed :: "bool \<Rightarrow> spline \<Rightarrow> spline" where
  "set_closed b sp = recompute (sp\<lparr>closed := b\<rparr>)"

text \<open>Modelled from the spec: \<open>getCubicSegment(i)\<close> returns the segment at index
  \<open>i\<close>, or the absent value when \<open>i\<close> is outside \<open>[0, segments.length)\<close> (missing
  \<open>TSMT$CubicBezierSpline\<close>). The application never asks for a recomputation, so the
  query performs the implicit one the spec allows when the knots have changed; it
  returns the answer and the spline after the call.\<close>

definition getCubicSegment :: "int \<Rightarrow> spline \<Rightarrow> segment option \<times> spline" where
  "getCubicSegment i sp =
     (let sp' = (if invalidated sp then recompute sp else sp)
      in (if 0 \<le> i \<and> i < int (length (segments sp')) then Some (segments sp' ! nat i) else None,
          sp'))"

text \<open>Modelled from the spec: the implicit recomputation, done when the knots have changed
  since the last one (missing \<open>TSMT$CubicBezierSpline\<close>).\<close>

definition refresh :: "spline \<Rightarrow> spline" where
  "refresh sp = (if invalidated sp then recompute sp else sp)"

section \<open>The application component (AppComponent)\<close>

text \<open>
  The display objects, as far as the component uses them: the stage with the names of
  the events its click handler listens to, the graphics of the spline as the list of
  drawing commands issued since the last \<open>clear()\<close>, and the marker container as the
  number of its children. A field that TypeScript leaves \<open>undefined\<close> is \<open>None\<close>.
  A handler that dereferences such a field throws; the model then returns the error, not
  the state the handler had reached.
\<close>

record pixi_stage =
  stage_listeners :: "string list"
  stage_interactive :: bool
  hitArea :: "(real \<times> real \<times> real \<times> real) option"
  stage_children :: nat

datatype draw_cmd =
  LineStyle real nat real
| MoveTo real real
| BezierCurveTo real real real real real real

record canvas =
  canvas_stage :: pixi_stage
  canvas_width :: real
  canvas_height :: real

record app =
  statusTxt :: string
  width :: real
  height :: real
  numKnots :: int
  markers :: "marker list"
  stage :: "pixi_stage option"
  splineGraphics :: "draw_cmd list option"
  markerContainer :: "nat option"
  spline :: spline

definition MAX_KNOTS :: int where
  "MAX_KNOTS = 8"

definition BEZIER_LINE_COLOR :: nat where
  "BEZIER_LINE_COLOR = 255"

text \<open>Decimal digits of a number, for the template string of the status line.\<close>

function string_of_nat :: "nat \<Rightarrow> string" where
  "string_of_nat n =
     (if n < 10 then [char_of (48 + n)]
      else string_of_nat (n div 10) @ [char_of (48 + n mod 10)])"
  by pat_completeness auto
termination
  by (relation "measure id") auto

declare string_of_nat.simps [simp del]

definition string_of_int :: "int \<Rightarrow> string" where
  "string_of_int i = (if i < 0 then ''-'' @ string_of_nat (nat (- i)) else string_of_nat (nat i))"

text \<open>A word between two single quotes, as the status texts have them.\<close>

definition quoted :: "string \<Rightarrow> string" where
  "quoted w = [CHR 0x27] @ w @ [CHR 0x27]"

text \<open>
  \<open>onClear\<close>: every guard of the source is a case distinction on a field. The markers
  that are cleared one by one are dropped with the old array, which a new one replaces.
\<close>

definition onClear :: "app \<Rightarrow> app" where
  "onClear st =
     st\<lparr>markerContainer := (case markerContainer st of None \<Rightarrow> None | Some c \<Rightarrow> Some 0),
        stage := (case stage st of
                    None \<Rightarrow> None
                  | Some sg \<Rightarrow> Some (sg\<lparr>stage_listeners := [''pointerup'']\<rparr>)),
        spline := spline_clear (spline st),
        splineGraphics := (case splineGraphics st of None \<Rightarrow> None | Some g \<Rightarrow> Some []),
        markers := [],
        numKnots := 0,
        statusTxt := quoted ''Click'' @ '' to add knots.  '' @ quoted ''Draw''
                       @ '' to draw cubic spline''\<rparr>"

text \<open>The constructor creates the spline and calls \<open>onClear\<close>; nothing of the display
  exists yet.\<close>

definition AppComponent :: app where
  "AppComponent =
     onClear \<lparr>statusTxt = '''', width = 0, height = 0, numKnots = 0, markers = [],
              stage = None, splineGraphics = None, markerContainer = None,
              spline = new_Spline\<rparr>"

text \<open>\<open>__setup\<close> creates the two containers, adds them to the stage and listens to
  \<open>click\<close>.\<close>

definition componentSetup :: "app \<Rightarrow> js_error + app" where
  "componentSetup st =
     (case stage st of
        None \<Rightarrow> Inl TypeError
      | Some sg \<Rightarrow>
          Inr (st\<lparr>markerContainer := Some 0,
                   splineGraphics := Some [],
                   stage := Some (sg\<lparr>stage_children := stage_children sg + 2,
                                       stage_interactive := True,
                                       hitArea := Some (0, 0, width st, height st),
                                       stage_listeners := stage_listeners sg @ [''click'']\<rparr>)\<rparr>))"

definition ngOnInit :: "canvas option \<Rightarrow> app \<Rightarrow> js_error + app" where
  "ngOnInit cv st =
     (case cv of
        None \<Rightarrow> Inr st
      | Some c \<Rightarrow>
          componentSetup (st\<lparr>stage := Some (canvas_stage c), width := canvas_width c,
                      height := canvas_height c\<rparr>))"

text \<open>
  \<open>__drawSpline\<close>, first loop: the coordinates of every marker, in the order of the
  array, go to \<open>addControlPoint\<close>. Reading a coordinate of a marker without a shape
  throws.
\<close>

fun addMarkers :: "marker list \<Rightarrow> spline \<Rightarrow> js_error + spline" where
  "addMarkers [] sp = Inr sp"
| "addMarkers (m # ms) sp =
     (case get_x m of
        Inl e \<Rightarrow> Inl e
      | Inr x \<Rightarrow>
          (case get_y m of
             Inl e \<Rightarrow> Inl e
           | Inr y \<Rightarrow> addMarkers ms (addControlPoint x y sp)))"

text \<open>
  \<open>__drawSpline\<close>, second loop: \<open>for (i = 0; i < n; ++i)\<close>. The segment is used
  without a test, so an absent segment throws. \<open>drawBezier\<close> is the body of the loop:
  \<open>moveTo(x0, y0)\<close> and \<open>bezierCurveTo(cx, cy, cx1, cy1, x1, y1)\<close>, the fields of
  \<open>TSMT$CubicBezier\<close> being the coordinates of \<open>p0\<close>, \<open>c0\<close>, \<open>c1\<close>, \<open>p1\<close>.
\<close>

definition drawBezier :: "segment \<Rightarrow> draw_cmd list" where
  "drawBezier b =
     [MoveTo (fst (p0 b)) (snd (p0 b)),
      BezierCurveTo (fst (c0 b)) (snd (c0 b)) (fst (c1 b)) (snd (c1 b)) (fst (p1 b)) (snd (p1 b))]"

function drawSegments ::
  "int \<Rightarrow> int \<Rightarrow> spline \<Rightarrow> draw_cmd list \<Rightarrow> js_error + (spline \<times> draw_cmd list)" where
  "drawSegments i n sp g =
     (if i < n then
        (case getCubicSegment i sp of
           (None, sp') \<Rightarrow> Inl TypeError
         | (Some b, sp') \<Rightarrow>
             drawSegments (i + 1) n sp' (g @ drawBezier b))
      else Inr (sp, g))"
  by pat_completeness auto
termination
  by (relation "measure (\<lambda>(i, n, sp, g). nat (n - i))") auto

declare drawSegments.simps [simp del]

definition drawSpline :: "app \<Rightarrow> js_error + app" where
  "drawSpline st =
     (case addMarkers (markers st) (spline st) of
        Inl e \<Rightarrow> Inl e
      | Inr sp \<Rightarrow>
          (case splineGraphics st of
             None \<Rightarrow> Inl TypeError
           | Some g0 \<Rightarrow>
               (case drawSegments 0 (numKnots st - 1) sp [LineStyle 2 BEZIER_LINE_COLOR 1] of
                  Inl e \<Rightarrow> Inl e
                | Inr (sp', g) \<Rightarrow> Inr (st\<lparr>spline := sp', splineGraphics := Some g\<rparr>))))"

text \<open>\<open>onDraw\<close>\<close>

definition onDraw :: "app \<Rightarrow> js_error + app" where
  "onDraw st =
     (if numKnots st < 3 then Inr (st\<lparr>statusTxt := ''You must define at least three knots''\<rparr>)
      else
        (case stage st of
           None \<Rightarrow> Inl TypeError
         | Some sg \<Rightarrow>
             drawSpline
               (st\<lparr>stage := Some (sg\<lparr>stage_listeners := []\<rparr>),
                   markers := map (addSubscriber (Some OnMarkerMoved)) (markers st),
                   statusTxt := quoted ''Clear'' @ '' to reset for another spline.''\<rparr>)))"

text \<open>\<open>__onStageClicked\<close>\<close>

definition onStageClicked :: "pointer_event \<Rightarrow> app \<Rightarrow> js_error + app" where
  "onStageClicked evt st =
     (if numKnots st < MAX_KNOTS then
        (let m = setCoords (Num (global_x evt)) (Num (global_y evt))
                   (snd (marker_create 8 ''#ff3300'' Marker))
         in case markerContainer st of
              None \<Rightarrow> Inl TypeError
            | Some c \<Rightarrow>
                Inr (st\<lparr>markers := markers st @ [m],
                         markerContainer := Some (c + 1),
                         numKnots := numKnots st + 1,
                         statusTxt := ''Total knot count '' @ string_of_int (numKnots st + 1)\<rparr>))
      else Inr (st\<lparr>statusTxt := ''Knot limit exceeded.  Clear Canvas and try a new knot set.''\<rparr>))"

text \<open>\<open>__onMarkerMoved\<close>: the arguments are not used; the spline is cleared and drawn
  again from the markers.\<close>

definition onMarkerMoved :: "string option \<Rightarrow> real \<Rightarrow> real \<Rightarrow> app \<Rightarrow> js_error + app" where
  "onMarkerMoved mid x y st = drawSpline (st\<lparr>spline := spline_clear (spline st)\<rparr>)"

section \<open>Events of a session\<close>

text \<open>
  What the browser delivers: a pointer event on the stage, handled once for every
  listener registered under its name; a pointer event on the shape of marker \<open>i\<close>; the
  two buttons. The reachable states are those a session can be in after \<open>ngOnInit\<close>,
  as long as no handler throws.
\<close>

fun notify :: "(subscriber \<times> string option \<times> real \<times> real) list \<Rightarrow> app \<Rightarrow> js_error + app" where
  "notify [] st = Inr st"
| "notify ((OnMarkerMoved, mid, x, y) # cs) st =
     (case onMarkerMoved mid x y st of Inl e \<Rightarrow> Inl e | Inr st' \<Rightarrow> notify cs st')"

fun clicks :: "string list \<Rightarrow> pointer_event \<Rightarrow> app \<Rightarrow> js_error + app" where
  "clicks [] evt st = Inr st"
| "clicks (l # ls) evt st =
     (case onStageClicked evt st of Inl e \<Rightarrow> Inl e | Inr st' \<Rightarrow> clicks ls evt st')"

datatype event =
  StageEvent string pointer_event
| MarkerEvent nat string pointer_event
| DrawButton
| ClearButton

definition markerEvent :: "nat \<Rightarrow> string \<Rightarrow> pointer_event \<Rightarrow> app \<Rightarrow> js_error + app" where
  "markerEvent i name evt st =
     (if i < length (markers st) then
        (let m = markers st ! i
         in case markerShape m of
              None \<Rightarrow> Inr st
            | Some s \<Rightarrow>
                if name \<notin> set (shape_listeners s) then Inr st
                else if name = ''mousedown'' \<or> name = ''touchstart'' then
                  Inr (st\<lparr>markers := (markers st)[i := startDrag m]\<rparr>)
                else if name = ''mousemove'' \<or> name = ''touchmove'' then
                  notify (snd (marker_dragging evt m))
                    (st\<lparr>markers := (markers st)[i := fst (marker_dragging evt m)]\<rparr>)
                else Inr (st\<lparr>markers := (markers st)[i := endDrag m]\<rparr>))
      else Inr st)"

fun dispatch :: "event \<Rightarrow> app \<Rightarrow> js_error + app" where
  "dispatch (StageEvent name evt) st =
     (case stage st of
        None \<Rightarrow> Inr st
      | Some sg \<Rightarrow> clicks (filter (\<lambda>l. l = name) (stage_listeners sg)) evt st)"
| "dispatch (MarkerEvent i name evt) st = markerEvent i name evt st"
| "dispatch DrawButton st = onDraw st"
| "dispatch ClearButton st = Inr (onClear st)"

inductive reachable :: "app \<Rightarrow> bool" where
  start: "ngOnInit cv AppComponent = Inr st \<Longrightarrow> reachable st"
| step: "reachable st \<Longrightarrow> dispatch e st = Inr st' \<Longrightarrow> reachable st'"

text \<open>The invariant of the knot counter.\<close>

definition knotInv :: "app \<Rightarrow> bool" where
  "knotInv st \<longleftrightarrow> numKnots st = int (length (markers st)) \<and> numKnots st \<le> MAX_KNOTS"

section \<open>The scale of a spline\<close>

text \<open>
  The two quantities of this section are not part of the program: they measure a
  segment list in the statements about the numerical routines. The control step of a
  segment is the largest difference, in either coordinate, between two consecutive
  control points of it. The speed of the segment is at most six times its control
  step, and its arc length from \<open>0\<close> to \<open>t\<close> changes at most eighteen times as
  fast as \<open>t\<close>.
\<close>

definition controlStep :: "segment \<Rightarrow> real" where
  "controlStep g =
     max (max \<bar>fst (c0 g) - fst (p0 g)\<bar> (max \<bar>fst (c1 g) - fst (c0 g)\<bar> \<bar>fst (p1 g) - fst (c1 g)\<bar>))
         (max \<bar>snd (c0 g) - snd (p0 g)\<bar> (max \<bar>snd (c1 g) - snd (c0 g)\<bar> \<bar>snd (p1 g) - snd (c1 g)\<bar>))"

text \<open>The largest control step among the segments of a spline, \<open>0\<close> when there is
  none.\<close>

definition maxControlStep :: "segment list \<Rightarrow> real" where
  "maxControlStep gs = foldr (\<lambda>g m. max (controlStep g) m) gs 0"

section \<open>An example session\<close>

text \<open>
  Concrete inputs on which the theorems below are exercised: a canvas of 600 by 400
  pixels, the component after \<open>ngOnInit\<close>, and the states after four and after eight
  clicks on the stage. \<open>markerAt\<close> is the marker a click creates.
\<close>

definition exampleCanvas :: canvas where
  "exampleCanvas =
     \<lparr>canvas_stage = \<lparr>stage_listeners = [], stage_interactive = False, hitArea = None,
                      stage_children = 0\<rparr>,
      canvas_width = 600, canvas_height = 400\<rparr>"

definition exampleStart :: app where
  "exampleStart = (case ngOnInit (Some exampleCanvas) AppComponent of Inr st \<Rightarrow> st | Inl e \<Rightarrow> AppComponent)"

definition markerAt :: "real \<Rightarrow> real \<Rightarrow> marker" where
  "markerAt x y = setCoords (Num x) (Num y) (snd (marker_create 8 ''#ff3300'' Marker))"

definition clickAt :: "real \<Rightarrow> real \<Rightarrow> app \<Rightarrow> app" where
  "clickAt x y st =
     (case dispatch (StageEvent ''click'' \<lparr>global_x = x, global_y = y\<rparr>) st of
        Inr st' \<Rightarrow> st' | Inl e \<Rightarrow> st)"

definition exampleFour :: app where
  "exampleFour = clickAt 0 10 (clickAt 10 10 (clickAt 10 0 (clickAt 0 0 exampleStart)))"

definition exampleEight :: app where
  "exampleEight = clickAt 7 7 (clickAt 6 6 (clickAt 5 5 (clickAt 4 4 exampleFour)))"


definition exampleKnots :: "point list" where
  "exampleKnots = [(0, 0), (10, 0), (10, 10), (0, 10)]"

definition exampleSegment :: segment where
  "exampleSegment = \<lparr>p0 = (0, 0), c0 = (1, 2), c1 = (3, 4), p1 = (5, 6)\<rparr>"

definition exampleSpline :: spline where
  "exampleSpline = snd (setData [0, 10, 10, 0] [0, 0, 10, 10] new_Spline)"

definition exampleDragged :: app where
  "exampleDragged =
     exampleFour\<lparr>markers := (markers exampleFour)
        [2 := fst (marker_dragging \<lparr>global_x = 20, global_y = 30\<rparr>
                     (startDrag (markers exampleFour ! 2)))]\<rparr>"

text \<open>The example session after the Draw button, and after a second press of it.\<close>

definition exampleDrawn :: app where
  "exampleDrawn = (case dispatch DrawButton exampleFour of Inr st \<Rightarrow> st | Inl e \<Rightarrow> exampleFour)"

definition exampleDrawnTwice :: app where
  "exampleDrawnTwice = (case dispatch DrawButton exampleDrawn of Inr st \<Rightarrow> st | Inl e \<Rightarrow> exampleDrawn)"

text \<open>
  Four knots on a line, three units apart and \<open>3 * 2^40\<close> units apart, the splines
  on them, and a segment whose four control points coincide.
\<close>

definition farKnots :: "point list" where
  "farKnots = [(0, 0), (3298534883328, 0), (6597069766656, 0), (9895604649984, 0)]"

definition nearKnots :: "point list" where
  "nearKnots = [(0, 0), (3, 0), (6, 0), (9, 0)]"

definition farSpline :: spline where
  "farSpline = recompute (snd (setData (map fst farKnots) (map snd farKnots) new_Spline))"

definition nearSpline :: spline where
  "nearSpline = recompute (snd (setData (map fst nearKnots) (map snd nearKnots) new_Spline))"



definition lineKnots :: "real \<Rightarrow> point list" where
  "lineKnots c = [(0, 0), (c, 0), (2 * c, 0), (3 * c, 0)]"

section \<open>Frame and invariant lemmas of the component\<close>

lemma drawSpline_frame:
  "drawSpline st = Inr st' \<Longrightarrow> markers st' = markers st \<and> numKnots st' = numKnots st
     \<and> stage st' = stage st \<and> markerContainer st' = markerContainer st \<and> statusTxt st' = statusTxt st"
  by (auto simp: drawSpline_def split: sum.splits option.splits prod.splits)

lemma onMarkerMoved_frame:
  "onMarkerMoved mid x y st = Inr st' \<Longrightarrow> markers st' = markers st \<and> numKnots st' = numKnots st"
  by (auto simp: onMarkerMoved_def dest!: drawSpline_frame)

lemma notify_frame:
  "notify cs st = Inr st' \<Longrightarrow> markers st' = markers st \<and> numKnots st' = numKnots st"
proof (induction cs st rule: notify.induct)
  case (1 st)
  then show ?case by simp
next
  case (2 mid x y cs st)
  then show ?case
    by (auto split: sum.splits dest!: onMarkerMoved_frame)
qed

lemma onStageClicked_inv:
  "knotInv st \<Longrightarrow> onStageClicked evt st = Inr st' \<Longrightarrow> knotInv st'"
  by (auto simp: knotInv_def onStageClicked_def Let_def split: if_splits option.splits)

lemma clicks_inv:
  "knotInv st \<Longrightarrow> clicks ls evt st = Inr st' \<Longrightarrow> knotInv st'"
proof (induction ls arbitrary: st)
  case Nil
  then show ?case by simp
next
  case (Cons l ls)
  then show ?case
    by (auto split: sum.splits dest: onStageClicked_inv)
qed

lemma onDraw_inv:
  "knotInv st \<Longrightarrow> onDraw st = Inr st' \<Longrightarrow> knotInv st'"
  by (auto simp: knotInv_def onDraw_def split: if_splits option.splits dest!: drawSpline_frame)

lemma onClear_inv: "knotInv (onClear st)"
  by (simp add: knotInv_def onClear_def MAX_KNOTS_def)

lemma markerEvent_frame:
  assumes "markerEvent i name evt st = Inr st'"
  shows "length (markers st') = length (markers st) \<and> numKnots st' = numKnots st"
proof (cases "i < length (markers st)")
  case False
  with assms show ?thesis by (simp add: markerEvent_def Let_def)
next
  case True
  show ?thesis
  proof (cases "markerShape (markers st ! i)")
    case None
    with True assms show ?thesis by (simp add: markerEvent_def Let_def)
  next
    case (Some s)
    consider (a) "name \<notin> set (shape_listeners s)"
      | (b) "name \<in> set (shape_listeners s)" "name = ''mousedown'' \<or> name = ''touchstart''"
      | (c) "name \<in> set (shape_listeners s)" "\<not> (name = ''mousedown'' \<or> name = ''touchstart'')"
            "name = ''mousemove'' \<or> name = ''touchmove''"
      | (d) "name \<in> set (shape_listeners s)" "\<not> (name = ''mousedown'' \<or> name = ''touchstart'')"
            "\<not> (name = ''mousemove'' \<or> name = ''touchmove'')"
      by blast
    then show ?thesis
    proof cases
      case a
      with True Some assms have "st' = st" by (simp add: markerEvent_def Let_def)
      then show ?thesis by simp
    next
      case b
      with True Some assms have "st' = st\<lparr>markers := (markers st)[i := startDrag (markers st ! i)]\<rparr>"
        by (simp add: markerEvent_def Let_def)
      then show ?thesis by simp
    next
      case c
      with True Some assms have
        "notify (snd (marker_dragging evt (markers st ! i)))
           (st\<lparr>markers := (markers st)[i := fst (marker_dragging evt (markers st ! i))]\<rparr>) = Inr st'"
        by (simp add: markerEvent_def Let_def)
      from notify_frame [OF this] show ?thesis by simp
    next
      case d
      with True Some assms have "st' = st\<lparr>markers := (markers st)[i := endDrag (markers st ! i)]\<rparr>"
        by (simp add: markerEvent_def Let_def)
      then show ?thesis by simp
    qed
  qed
qed

lemma markerEvent_inv:
  "knotInv st \<Longrightarrow> markerEvent i name evt st = Inr st' \<Longrightarrow> knotInv st'"
  using markerEvent_frame [of i name evt st st'] by (simp add: knotInv_def)

lemma dispatch_inv:
  "knotInv st \<Longrightarrow> dispatch e st = Inr st' \<Longrightarrow> knotInv st'"
  by (cases e) (auto split: option.splits dest: clicks_inv onDraw_inv markerEvent_inv simp: onClear_inv)

lemma start_inv: "ngOnInit cv AppComponent = Inr st \<Longrightarrow> knotInv st"
  by (auto simp: ngOnInit_def componentSetup_def AppComponent_def onClear_def knotInv_def MAX_KNOTS_def
      split: option.splits)

lemma reachable_inv: "reachable st \<Longrightarrow> knotInv st"
  by (induction rule: reachable.induct) (auto dest: start_inv dispatch_inv)

section \<open>The two loops of the drawing routine\<close>

lemma getCubicSegment_refresh:
  "getCubicSegment i sp =
     (if 0 \<le> i \<and> i < int (length (segments (refresh sp)))
      then Some (segments (refresh sp) ! nat i) else None, refresh sp)"
  by (simp add: getCubicSegment_def refresh_def Let_def)

lemma refresh_valid: "\<not> invalidated (refresh sp)"
  by (simp add: refresh_def recompute_def)

lemma refresh_idem: "\<not> invalidated sp \<Longrightarrow> refresh sp = sp"
  by (simp add: refresh_def)

lemma drawSegments_valid:
  "\<not> invalidated sp \<Longrightarrow> 0 \<le> i \<Longrightarrow> n \<le> int (length (segments sp)) \<Longrightarrow>
   drawSegments i n sp g =
     Inr (sp, g @ concat (map (\<lambda>k. drawBezier (segments sp ! k)) [nat i ..< nat n]))"
proof (induction i n sp g rule: drawSegments.induct)
  case (1 i n sp g)
  show ?case
  proof (cases "i < n")
    case False
    then show ?thesis by (simp add: drawSegments.simps [of i n])
  next
    case True
    have r: "refresh sp = sp" using "1.prems" by (simp add: refresh_idem)
    have g: "getCubicSegment i sp = (Some (segments sp ! nat i), sp)"
      using True "1.prems" by (simp add: getCubicSegment_refresh r)
    have ih: "drawSegments (i + 1) n sp (g @ drawBezier (segments sp ! nat i)) =
      Inr (sp, (g @ drawBezier (segments sp ! nat i))
               @ concat (map (\<lambda>k. drawBezier (segments sp ! k)) [nat (i + 1) ..< nat n]))"
      using "1.IH" [OF True g [symmetric] refl] "1.prems" by simp
    have "nat (i + 1) = Suc (nat i)" "nat i < nat n"
      using True "1.prems" by linarith+
    then have u: "[nat i ..< nat n] = nat i # [nat (i + 1) ..< nat n]"
      by (simp add: upt_conv_Cons)
    show ?thesis
      using True g ih u by (simp add: drawSegments.simps [of i n])
  qed
qed

lemma drawSegments_first:
  assumes "0 < n" "n \<le> int (length (segments (refresh sp)))"
  shows "drawSegments 0 n sp g =
     Inr (refresh sp, g @ concat (map (\<lambda>k. drawBezier (segments (refresh sp) ! k)) [0 ..< nat n]))"
proof -
  have g: "getCubicSegment 0 sp = (Some (segments (refresh sp) ! 0), refresh sp)"
    using assms by (auto simp add: getCubicSegment_refresh)
  have "drawSegments 0 n sp g = drawSegments 1 n (refresh sp) (g @ drawBezier (segments (refresh sp) ! 0))"
    using assms g by (simp add: drawSegments.simps [of 0 n sp])
  also have "\<dots> = Inr (refresh sp, (g @ drawBezier (segments (refresh sp) ! 0))
       @ concat (map (\<lambda>k. drawBezier (segments (refresh sp) ! k)) [nat 1 ..< nat n]))"
    using assms by (intro drawSegments_valid) (simp_all add: refresh_valid)
  also have "[0 ..< nat n] = 0 # [nat 1 ..< nat n]"
    using assms by (simp add: upt_conv_Cons)
  then have "(g @ drawBezier (segments (refresh sp) ! 0))
       @ concat (map (\<lambda>k. drawBezier (segments (refresh sp) ! k)) [nat 1 ..< nat n])
     = g @ concat (map (\<lambda>k. drawBezier (segments (refresh sp) ! k)) [0 ..< nat n])"
    by simp
  finally show ?thesis .
qed

lemma addMarkers_shapes:
  "\<forall>m \<in> set ms. markerShape m \<noteq> None \<Longrightarrow>
   \<exists>ps. addMarkers ms sp = Inr (sp\<lparr>knots := knots sp @ ps, invalidated := (invalidated sp \<or> ms \<noteq> [])\<rparr>)
       \<and> map (\<lambda>p. Inr (fst p)) ps = map get_x ms \<and> map (\<lambda>p. Inr (snd p)) ps = map get_y ms"
proof (induction ms arbitrary: sp)
  case Nil
  then show ?case by simp
next
  case (Cons m ms)
  then obtain s where s: "markerShape m = Some s" by auto
  from Cons obtain ps where ps:
    "addMarkers ms (addControlPoint (shape_x s) (shape_y s) sp)
       = Inr ((addControlPoint (shape_x s) (shape_y s) sp)
               \<lparr>knots := knots (addControlPoint (shape_x s) (shape_y s) sp) @ ps,
                invalidated := (invalidated (addControlPoint (shape_x s) (shape_y s) sp) \<or> ms \<noteq> [])\<rparr>)"
    "map (\<lambda>p. Inr (fst p)) ps = map get_x ms" "map (\<lambda>p. Inr (snd p)) ps = map get_y ms"
    using Cons.IH [of "addControlPoint (shape_x s) (shape_y s) sp"] Cons.prems by auto
  show ?case
    apply (rule exI [of _ "(shape_x s, shape_y s) # ps"])
    using s ps by (simp add: get_x_def get_y_def addControlPoint_def)
qed

lemma length_buildSegments:
  "3 \<le> length ks \<Longrightarrow> length (buildSegments cl ks) = (if cl then length ks else length ks - 1)"
  by (simp add: buildSegments_def)

lemma buildSegments_nth:
  "3 \<le> length ks \<Longrightarrow> i < length (buildSegments cl ks) \<Longrightarrow>
   buildSegments cl ks ! i = buildSegment cl ks i"
  by (simp add: buildSegments_def Let_def split: if_splits)


lemma drawSpline_appends:
  assumes sh: "\<forall>m \<in> set (markers st). markerShape m \<noteq> None"
    and nk: "numKnots st = int (length (markers st))"
    and n3: "3 \<le> numKnots st"
    and gr: "splineGraphics st \<noteq> None"
  shows "\<exists>ps. map (\<lambda>p. Inr (fst p)) ps = map get_x (markers st)
            \<and> map (\<lambda>p. Inr (snd p)) ps = map get_y (markers st)
            \<and> drawSpline st =
                Inr (st\<lparr>spline := recompute ((spline st)\<lparr>knots := knots (spline st) @ ps,
                                                       invalidated := True\<rparr>),
                        splineGraphics :=
                          Some (LineStyle 2 BEZIER_LINE_COLOR 1 #
                                concat (map (\<lambda>k. drawBezier (buildSegments (closed (spline st)) (knots (spline st) @ ps) ! k))
                                          [0 ..< length (markers st) - 1]))\<rparr>)"
proof -
  have ne: "markers st \<noteq> []" using nk n3 by auto
  from addMarkers_shapes [OF sh, of "spline st"] obtain ps where
    am: "addMarkers (markers st) (spline st)
           = Inr ((spline st)\<lparr>knots := knots (spline st) @ ps,
                               invalidated := (invalidated (spline st) \<or> markers st \<noteq> [])\<rparr>)"
    and px: "map (\<lambda>p. Inr (fst p)) ps = map get_x (markers st)"
    and py: "map (\<lambda>p. Inr (snd p)) ps = map get_y (markers st)"
    by blast
  define sp1 where "sp1 = (spline st)\<lparr>knots := knots (spline st) @ ps, invalidated := True\<rparr>"
  have am': "addMarkers (markers st) (spline st) = Inr sp1"
    using am ne by (simp add: sp1_def)
  have lp: "length ps = length (markers st)"
    using px by (metis length_map)
  have rf: "refresh sp1 = recompute sp1"
    by (simp add: refresh_def sp1_def)
  have sg: "segments (recompute sp1) = buildSegments (closed (spline st)) (knots (spline st) @ ps)"
    by (simp add: recompute_def sp1_def)
  have l3: "3 \<le> length (knots (spline st) @ ps)" using lp nk n3 by simp
  have "length (markers st) - 1 \<le> length (buildSegments (closed (spline st)) (knots (spline st) @ ps))"
    using lp by (simp add: length_buildSegments [OF l3]) linarith
  then have ls: "numKnots st - 1 \<le> int (length (segments (refresh sp1)))"
    using nk n3 by (simp only: rf sg)
  have pos: "0 < numKnots st - 1" using n3 by simp
  have nn: "nat (numKnots st - 1) = length (markers st) - 1"
    using nk by simp
  from gr obtain g0 where g0: "splineGraphics st = Some g0" by auto
  have ds: "drawSegments 0 (numKnots st - 1) sp1 [LineStyle 2 BEZIER_LINE_COLOR 1] =
      Inr (recompute sp1, [LineStyle 2 BEZIER_LINE_COLOR 1]
             @ concat (map (\<lambda>k. drawBezier (buildSegments (closed (spline st)) (knots (spline st) @ ps) ! k))
                        [0 ..< length (markers st) - 1]))"
    using drawSegments_first [OF pos ls, of "[LineStyle 2 BEZIER_LINE_COLOR 1]"]
    by (simp only: rf sg nn)
  have "drawSpline st =
      Inr (st\<lparr>spline := recompute sp1,
              splineGraphics :=
                Some (LineStyle 2 BEZIER_LINE_COLOR 1 #
                      concat (map (\<lambda>k. drawBezier (buildSegments (closed (spline st)) (knots (spline st) @ ps) ! k))
                                [0 ..< length (markers st) - 1]))\<rparr>)"
    by (simp add: drawSpline_def am' g0 ds)
  then show ?thesis using px py by (auto simp: sp1_def)
qed

lemma drawSpline_result:
  assumes sh: "\<forall>m \<in> set (markers st). markerShape m \<noteq> None"
    and nk: "numKnots st = int (length (markers st))"
    and n3: "3 \<le> numKnots st"
    and gr: "splineGraphics st \<noteq> None"
    and em: "knots (spline st) = []"
  shows "\<exists>ps. map (\<lambda>p. Inr (fst p)) ps = map get_x (markers st)
            \<and> map (\<lambda>p. Inr (snd p)) ps = map get_y (markers st)
            \<and> drawSpline st =
                Inr (st\<lparr>spline := recompute ((spline st)\<lparr>knots := ps, invalidated := True\<rparr>),
                        splineGraphics :=
                          Some (LineStyle 2 BEZIER_LINE_COLOR 1 #
                                concat (map (\<lambda>k. drawBezier (buildSegments (closed (spline st)) ps ! k))
                                          [0 ..< length (markers st) - 1]))\<rparr>)"
  using drawSpline_appends [OF sh nk n3 gr] by (simp add: em)

lemma buildSegment_ends:
  "p0 (buildSegment cl ks i) = ks ! i \<and> p1 (buildSegment cl ks i) = ks ! ((i + 1) mod length ks)"
  by (simp add: buildSegment_def Let_def)

section \<open>Evaluation of the example session\<close>

lemma clamp01_simps:
  "clamp01 0 = 0" "clamp01 1 = 1" "t < 0 \<Longrightarrow> clamp01 t = 0" "1 < t \<Longrightarrow> clamp01 t = 1"
  "0 \<le> t \<Longrightarrow> t \<le> 1 \<Longrightarrow> clamp01 t = t"
  by (simp_all add: clamp01_def)

lemma markerAt_shape:
  "markerShape (markerAt x y) \<noteq> None" "get_x (markerAt x y) = Inr x" "get_y (markerAt x y) = Inr y"
  by (simp_all add: markerAt_def setCoords_def marker_create_def Marker_def Let_def get_x_def get_y_def)

lemma onStageClicked_below:
  assumes "numKnots st < MAX_KNOTS" "markerContainer st = Some c"
  shows "onStageClicked evt st =
     Inr (st\<lparr>markers := markers st @ [markerAt (global_x evt) (global_y evt)],
              markerContainer := Some (c + 1),
              numKnots := numKnots st + 1,
              statusTxt := ''Total knot count '' @ string_of_int (numKnots st + 1)\<rparr>)"
  using assms by (simp add: onStageClicked_def markerAt_def Let_def)

lemma onStageClicked_ceiling:
  assumes "\<not> numKnots st < MAX_KNOTS"
  shows "onStageClicked evt st =
     Inr (st\<lparr>statusTxt := ''Knot limit exceeded.  Clear Canvas and try a new knot set.''\<rparr>)"
  using assms by (simp add: onStageClicked_def)

lemma clickAt_eval:
  assumes "stage st = Some sg" "stage_listeners sg = [''click'']" "markerContainer st = Some c"
    "numKnots st < MAX_KNOTS"
  shows "clickAt x y st =
     st\<lparr>markers := markers st @ [markerAt x y],
        markerContainer := Some (c + 1),
        numKnots := numKnots st + 1,
        statusTxt := ''Total knot count '' @ string_of_int (numKnots st + 1)\<rparr>"
  using assms by (simp add: clickAt_def onStageClicked_below [of st c])

lemma exampleStart_Inr:
  "ngOnInit (Some exampleCanvas) AppComponent =
     Inr (AppComponent\<lparr>stage := Some \<lparr>stage_listeners = [''click''], stage_interactive = True,
                                     hitArea = Some (0, 0, 600, 400), stage_children = 2\<rparr>,
                        width := 600, height := 400,
                        markerContainer := Some 0, splineGraphics := Some []\<rparr>)"
  by (simp add: ngOnInit_def componentSetup_def exampleCanvas_def)

lemma AppComponent_eval:
  "numKnots AppComponent = 0" "markers AppComponent = []" "spline AppComponent = new_Spline"
  by (simp_all add: AppComponent_def onClear_def spline_clear_def new_Spline_def)

lemma exampleStart_eval:
  "numKnots exampleStart = 0" "markers exampleStart = []" "spline exampleStart = new_Spline"
  "markerContainer exampleStart = Some 0" "splineGraphics exampleStart = Some []"
  "stage exampleStart = Some \<lparr>stage_listeners = [''click''], stage_interactive = True,
                              hitArea = Some (0, 0, 600, 400), stage_children = 2\<rparr>"
  by (simp_all add: exampleStart_def exampleStart_Inr AppComponent_eval)

lemma exampleFour_eval:
  "numKnots exampleFour = 4"
  "markers exampleFour = [markerAt 0 0, markerAt 10 0, markerAt 10 10, markerAt 0 10]"
  "spline exampleFour = new_Spline"
  "markerContainer exampleFour = Some 4" "splineGraphics exampleFour = Some []"
  "stage exampleFour = Some \<lparr>stage_listeners = [''click''], stage_interactive = True,
                              hitArea = Some (0, 0, 600, 400), stage_children = 2\<rparr>"
  by (simp_all add: exampleFour_def clickAt_eval exampleStart_eval MAX_KNOTS_def)

lemma exampleEight_eval:
  "numKnots exampleEight = 8"
  "markers exampleEight = [markerAt 0 0, markerAt 10 0, markerAt 10 10, markerAt 0 10,
                            markerAt 4 4, markerAt 5 5, markerAt 6 6, markerAt 7 7]"
  "markerContainer exampleEight = Some 8"
  by (simp_all add: exampleEight_def clickAt_eval exampleFour_eval MAX_KNOTS_def)

lemma reachable_clickAt: "reachable st \<Longrightarrow> reachable (clickAt x y st)"
proof (cases "dispatch (StageEvent ''click'' \<lparr>global_x = x, global_y = y\<rparr>) st")
  case (Inl e)
  assume "reachable st"
  with Inl show ?thesis by (simp add: clickAt_def del: dispatch.simps)
next
  case (Inr st')
  assume "reachable st"
  from reachable.step [OF this Inr] Inr show ?thesis by (simp add: clickAt_def del: dispatch.simps)
qed

lemma reachable_exampleStart: "reachable exampleStart"
  by (rule reachable.start [of "Some exampleCanvas"]) (simp add: exampleStart_def exampleStart_Inr)

lemma reachable_exampleEight: "reachable exampleEight"
  by (simp add: exampleEight_def exampleFour_def reachable_clickAt reachable_exampleStart)

lemma map_Inr_nth:
  assumes "map (\<lambda>p. Inr (f p)) ps = map g ms" "i < length ms"
  shows "g (ms ! i) = Inr (f (ps ! i))"
proof -
  have l: "length ps = length ms" using assms(1) by (metis length_map)
  have "map g ms ! i = map (\<lambda>p. Inr (f p)) ps ! i" using assms(1) by simp
  then show ?thesis using assms(2) l by simp
qed

lemma exampleFour_shapes: "\<forall>m \<in> set (markers exampleFour). markerShape m \<noteq> None"
  by (simp add: exampleFour_eval markerAt_shape del: not_None_eq)

lemma exampleDragged_eval:
  "numKnots exampleDragged = 4" "length (markers exampleDragged) = 4"
  "splineGraphics exampleDragged = Some []"
  "map get_x (markers exampleDragged) = [Inr 0, Inr 10, Inr 20, Inr 0]"
  "map get_y (markers exampleDragged) = [Inr 0, Inr 0, Inr 30, Inr 10]"
  "\<forall>m \<in> set (markers exampleDragged). markerShape m \<noteq> None"
  by (simp_all add: exampleDragged_def exampleFour_eval markerAt_shape del: not_None_eq)
     (simp_all add: markerAt_def setCoords_def marker_create_def Marker_def Let_def get_x_def
        get_y_def startDrag_def marker_dragging_def makeDraggable_def new_Graphics_def)

lemma exampleSpline_eval:
  "knots exampleSpline = exampleKnots" "invalidated exampleSpline" "\<not> closed exampleSpline"
  by (simp_all add: exampleSpline_def setData_def new_Spline_def exampleKnots_def)

section \<open>Drawing on a cleared spline and on a used one\<close>

text \<open>
  Entered with a cleared open spline and \<open>n \<ge> 3\<close> markers, the drawing routine hands
  the marker positions to the spline in order and draws exactly the segments \<open>0\<close> to
  \<open>n - 2\<close>; segment \<open>i\<close> runs from marker \<open>i\<close> to marker \<open>i + 1\<close>. \<open>onDraw\<close>
  itself appends to whatever the spline holds.
\<close>

lemma drawing_loop_on_cleared_spline:
  "(3 \<le> length ks \<longrightarrow>
      length (buildSegments False ks) = length ks - 1 \<and> length (buildSegments True ks) = length ks)
   \<and> (knots (spline st) = [] \<and> \<not> closed (spline st) \<and> numKnots st = int (length (markers st))
       \<and> 3 \<le> numKnots st \<and> (\<forall>m \<in> set (markers st). markerShape m \<noteq> None)
       \<and> splineGraphics st \<noteq> None \<longrightarrow>
      (\<exists>st'. drawSpline st = Inr st'
          \<and> length (knots (spline st')) = length (markers st)
          \<and> segments (spline st') = buildSegments False (knots (spline st'))
          \<and> length (segments (spline st')) = length (markers st) - 1
          \<and> splineGraphics st' =
              Some (LineStyle 2 BEZIER_LINE_COLOR 1 #
                    concat (map (\<lambda>i. drawBezier (segments (spline st') ! i))
                              [0 ..< length (markers st) - 1]))
          \<and> (\<forall>i < length (markers st) - 1.
                get_x (markers st ! i) = Inr (fst (p0 (segments (spline st') ! i)))
              \<and> get_y (markers st ! i) = Inr (snd (p0 (segments (spline st') ! i)))
              \<and> get_x (markers st ! (i + 1)) = Inr (fst (p1 (segments (spline st') ! i)))
              \<and> get_y (markers st ! (i + 1)) = Inr (snd (p1 (segments (spline st') ! i))))))"
proof (intro conjI impI)
  assume "3 \<le> length ks"
  then show "length (buildSegments False ks) = length ks - 1"
    and "length (buildSegments True ks) = length ks"
    by (simp_all add: length_buildSegments)
next
  assume h: "knots (spline st) = [] \<and> \<not> closed (spline st) \<and> numKnots st = int (length (markers st))
       \<and> 3 \<le> numKnots st \<and> (\<forall>m \<in> set (markers st). markerShape m \<noteq> None)
       \<and> splineGraphics st \<noteq> None"
  then have sh: "\<forall>m \<in> set (markers st). markerShape m \<noteq> None"
    and nk: "numKnots st = int (length (markers st))" and n3: "3 \<le> numKnots st"
    and gr: "splineGraphics st \<noteq> None" and em: "knots (spline st) = []"
    and op: "\<not> closed (spline st)"
    by simp_all
  from drawSpline_result [OF sh nk n3 gr em] obtain ps where
    px: "map (\<lambda>p. Inr (fst p)) ps = map get_x (markers st)"
    and py: "map (\<lambda>p. Inr (snd p)) ps = map get_y (markers st)"
    and dr: "drawSpline st =
                Inr (st\<lparr>spline := recompute ((spline st)\<lparr>knots := ps, invalidated := True\<rparr>),
                        splineGraphics :=
                          Some (LineStyle 2 BEZIER_LINE_COLOR 1 #
                                concat (map (\<lambda>k. drawBezier (buildSegments (closed (spline st)) ps ! k))
                                          [0 ..< length (markers st) - 1]))\<rparr>)"
    by blast
  define st' where "st' = st\<lparr>spline := recompute ((spline st)\<lparr>knots := ps, invalidated := True\<rparr>),
                        splineGraphics :=
                          Some (LineStyle 2 BEZIER_LINE_COLOR 1 #
                                concat (map (\<lambda>k. drawBezier (buildSegments (closed (spline st)) ps ! k))
                                          [0 ..< length (markers st) - 1]))\<rparr>"
  have dr': "drawSpline st = Inr st'" unfolding st'_def by (rule dr)
  have lp: "length ps = length (markers st)" using px by (metis length_map)
  have l3: "3 \<le> length ps" using lp nk n3 by linarith
  have kn: "knots (spline st') = ps" by (simp add: st'_def recompute_def)
  have sg: "segments (spline st') = buildSegments False ps"
    using op by (simp add: st'_def recompute_def)
  have ls: "length (segments (spline st')) = length (markers st) - 1"
    using l3 lp by (simp add: sg length_buildSegments)
  have gx: "splineGraphics st' =
              Some (LineStyle 2 BEZIER_LINE_COLOR 1 #
                    concat (map (\<lambda>i. drawBezier (segments (spline st') ! i))
                              [0 ..< length (markers st) - 1]))"
    using op by (simp add: sg) (simp add: st'_def)
  have en: "get_x (markers st ! i) = Inr (fst (p0 (segments (spline st') ! i)))
              \<and> get_y (markers st ! i) = Inr (snd (p0 (segments (spline st') ! i)))
              \<and> get_x (markers st ! (i + 1)) = Inr (fst (p1 (segments (spline st') ! i)))
              \<and> get_y (markers st ! (i + 1)) = Inr (snd (p1 (segments (spline st') ! i)))"
    if i: "i < length (markers st) - 1" for i
  proof -
    have il: "i < length (buildSegments False ps)"
      using i l3 lp by (simp add: length_buildSegments)
    have md: "Suc i mod length ps = Suc i" using i lp by simp
    have s: "segments (spline st') ! i = buildSegment False ps i"
      by (simp add: sg buildSegments_nth [OF l3 il])
    have a: "p0 (segments (spline st') ! i) = ps ! i" "p1 (segments (spline st') ! i) = ps ! (i + 1)"
      using buildSegment_ends [of False ps i] by (simp_all add: s md)
    have i1: "i < length (markers st)" "i + 1 < length (markers st)" using i by simp_all
    show ?thesis
      using map_Inr_nth [OF px i1(1)] map_Inr_nth [OF py i1(1)]
        map_Inr_nth [OF px i1(2)] map_Inr_nth [OF py i1(2)]
      by (simp add: a)
  qed
  show "\<exists>st'. drawSpline st = Inr st'
          \<and> length (knots (spline st')) = length (markers st)
          \<and> segments (spline st') = buildSegments False (knots (spline st'))
          \<and> length (segments (spline st')) = length (markers st) - 1
          \<and> splineGraphics st' =
              Some (LineStyle 2 BEZIER_LINE_COLOR 1 #
                    concat (map (\<lambda>i. drawBezier (segments (spline st') ! i))
                              [0 ..< length (markers st) - 1]))
          \<and> (\<forall>i < length (markers st) - 1.
                get_x (markers st ! i) = Inr (fst (p0 (segments (spline st') ! i)))
              \<and> get_y (markers st ! i) = Inr (snd (p0 (segments (spline st') ! i)))
              \<and> get_x (markers st ! (i + 1)) = Inr (fst (p1 (segments (spline st') ! i)))
              \<and> get_y (markers st ! (i + 1)) = Inr (snd (p1 (segments (spline st') ! i))))"
    apply (rule exI [of _ st'])
    using dr' kn sg ls gx en lp by simp
qed


lemma addSubscriber_shape:
  "markerShape (addSubscriber f m) = markerShape m"
  by (simp add: addSubscriber_def split: option.splits)

lemma onDraw_appends:
  assumes sh: "\<forall>m \<in> set (markers st). markerShape m \<noteq> None"
    and nk: "numKnots st = int (length (markers st))"
    and n3: "3 \<le> numKnots st"
    and gr: "splineGraphics st \<noteq> None"
    and sg: "stage st \<noteq> None"
  shows "\<exists>st'. onDraw st = Inr st'
      \<and> length (knots (spline st')) = length (knots (spline st)) + length (markers st)
      \<and> segments (spline st') = buildSegments (closed (spline st)) (knots (spline st'))
      \<and> closed (spline st') = closed (spline st)
      \<and> splineGraphics st' =
           Some (LineStyle 2 BEZIER_LINE_COLOR 1 #
                 concat (map (\<lambda>i. drawBezier (segments (spline st') ! i))
                           [0 ..< length (markers st) - 1]))
      \<and> numKnots st' = numKnots st \<and> length (markers st') = length (markers st)
      \<and> (\<forall>m \<in> set (markers st'). markerShape m \<noteq> None)
      \<and> stage st' \<noteq> None"
proof -
  from sg obtain s0 where s0: "stage st = Some s0" by auto
  define st1 where "st1 = st\<lparr>stage := Some (s0\<lparr>stage_listeners := []\<rparr>),
                   markers := map (addSubscriber (Some OnMarkerMoved)) (markers st),
                   statusTxt := quoted ''Clear'' @ '' to reset for another spline.''\<rparr>"
  have od: "onDraw st = drawSpline st1"
    using n3 by (simp add: onDraw_def s0 st1_def)
  have h: "\<forall>m \<in> set (markers st1). markerShape m \<noteq> None"
    "numKnots st1 = int (length (markers st1))" "3 \<le> numKnots st1" "splineGraphics st1 \<noteq> None"
    using sh nk n3 gr by (simp_all add: st1_def addSubscriber_shape del: not_None_eq)
  from drawSpline_appends [OF h] obtain ps where
    px: "map (\<lambda>p. Inr (fst p)) ps = map get_x (markers st1)"
    and dr: "drawSpline st1 =
                Inr (st1\<lparr>spline := recompute ((spline st1)\<lparr>knots := knots (spline st1) @ ps,
                                                       invalidated := True\<rparr>),
                        splineGraphics :=
                          Some (LineStyle 2 BEZIER_LINE_COLOR 1 #
                                concat (map (\<lambda>k. drawBezier (buildSegments (closed (spline st1)) (knots (spline st1) @ ps) ! k))
                                          [0 ..< length (markers st1) - 1]))\<rparr>)"
    by blast
  define st' where "st' = st1\<lparr>spline := recompute ((spline st1)\<lparr>knots := knots (spline st1) @ ps,
                                                       invalidated := True\<rparr>),
                        splineGraphics :=
                          Some (LineStyle 2 BEZIER_LINE_COLOR 1 #
                                concat (map (\<lambda>k. drawBezier (buildSegments (closed (spline st1)) (knots (spline st1) @ ps) ! k))
                                          [0 ..< length (markers st1) - 1]))\<rparr>"
  have dr': "onDraw st = Inr st'" unfolding st'_def od by (rule dr)
  have lp: "length ps = length (markers st)"
  proof -
    have "length (map (\<lambda>p. Inr (fst p) :: js_error + real) ps) = length (map get_x (markers st1))"
      by (simp only: px)
    then show ?thesis by (simp add: st1_def)
  qed
  have a: "knots (spline st') = knots (spline st) @ ps" "closed (spline st') = closed (spline st)"
    "segments (spline st') = buildSegments (closed (spline st)) (knots (spline st) @ ps)"
    "numKnots st' = numKnots st" "length (markers st') = length (markers st)"
    "stage st' \<noteq> None"
    by (simp_all add: st'_def st1_def recompute_def)
  have g: "splineGraphics st' =
           Some (LineStyle 2 BEZIER_LINE_COLOR 1 #
                 concat (map (\<lambda>i. drawBezier (segments (spline st') ! i))
                           [0 ..< length (markers st) - 1]))"
    by (simp add: a(3)) (simp add: st'_def st1_def)
  have m: "\<forall>m \<in> set (markers st'). markerShape m \<noteq> None"
    using h(1) by (simp add: st'_def del: not_None_eq)
  show ?thesis
    apply (rule exI [of _ st'])
    using dr' a g m lp by simp
qed

lemma exampleDrawn_eval:
  "onDraw exampleFour = Inr exampleDrawn"
  "length (knots (spline exampleDrawn)) = 4" "length (segments (spline exampleDrawn)) = 3"
  "\<not> closed (spline exampleDrawn)"
  "numKnots exampleDrawn = 4" "length (markers exampleDrawn) = 4"
  "\<forall>m \<in> set (markers exampleDrawn). markerShape m \<noteq> None"
  "stage exampleDrawn \<noteq> None" "splineGraphics exampleDrawn \<noteq> None"
proof -
  have h: "\<forall>m \<in> set (markers exampleFour). markerShape m \<noteq> None"
    "numKnots exampleFour = int (length (markers exampleFour))" "3 \<le> numKnots exampleFour"
    "splineGraphics exampleFour \<noteq> None" "stage exampleFour \<noteq> None"
    using exampleFour_shapes by (simp_all add: exampleFour_eval)
  from onDraw_appends [OF h] obtain st' where s: "onDraw exampleFour = Inr st'"
    "length (knots (spline st')) = length (knots (spline exampleFour)) + length (markers exampleFour)"
    "segments (spline st') = buildSegments (closed (spline exampleFour)) (knots (spline st'))"
    "closed (spline st') = closed (spline exampleFour)"
    "numKnots st' = numKnots exampleFour" "length (markers st') = length (markers exampleFour)"
    "\<forall>m \<in> set (markers st'). markerShape m \<noteq> None" "stage st' \<noteq> None"
    "splineGraphics st' =
           Some (LineStyle 2 BEZIER_LINE_COLOR 1 #
                 concat (map (\<lambda>i. drawBezier (segments (spline st') ! i))
                           [0 ..< length (markers exampleFour) - 1]))"
    by blast
  have e: "exampleDrawn = st'" by (simp add: exampleDrawn_def s(1))
  show "onDraw exampleFour = Inr exampleDrawn" by (simp add: e s(1))
  show k: "length (knots (spline exampleDrawn)) = 4"
    using s(2) by (simp add: e exampleFour_eval new_Spline_def)
  show "\<not> closed (spline exampleDrawn)"
    using s(4) by (simp add: e exampleFour_eval new_Spline_def)
  show "length (segments (spline exampleDrawn)) = 3"
    using s(3) k by (simp add: e length_buildSegments exampleFour_eval new_Spline_def)
  show "numKnots exampleDrawn = 4" "length (markers exampleDrawn) = 4"
    using s(5,6) by (simp_all add: e exampleFour_eval)
  show "\<forall>m \<in> set (markers exampleDrawn). markerShape m \<noteq> None"
    "stage exampleDrawn \<noteq> None" "splineGraphics exampleDrawn \<noteq> None"
    using s(7,8,9) by (simp_all add: e del: not_None_eq)
qed

section \<open>The numerical routines\<close>

lemma bisect_numeral:
  "bisect f target eps (numeral v) lo hi =
     (let mid = (lo + hi) / 2; w = f mid
      in if \<bar>w - target\<bar> < eps then (mid, True)
         else if pred_numeral v = 0 then (mid, False)
         else if w < target then bisect f target eps (pred_numeral v) mid hi
         else bisect f target eps (pred_numeral v) lo mid)"
  by (simp add: numeral_eq_Suc)

lemma upt_1_10: "[1 ..< 10] = [1, 2, 3, 4, 5, 6, 7, 8, 9 :: nat]"
  by (simp add: upt_rec)

lemma simpson_10:
  "simpson 10 f a b =
     (b - a) / 30 * (f a + f b
        + 4 * (f (a + (b - a) / 10) + f (a + 3 * ((b - a) / 10)) + f (a + 5 * ((b - a) / 10))
               + f (a + 7 * ((b - a) / 10)) + f (a + 9 * ((b - a) / 10)))
        + 2 * (f (a + 2 * ((b - a) / 10)) + f (a + 4 * ((b - a) / 10))
               + f (a + 6 * ((b - a) / 10)) + f (a + 8 * ((b - a) / 10))))"
  by (simp only: simpson_def Let_def upt_1_10) (simp add: algebra_simps)

lemma speed_flat:
  assumes "snd (c0 g) = snd (p0 g)" "snd (c1 g) = snd (p0 g)" "snd (p1 g) = snd (p0 g)"
  shows "speed g t = \<bar>getXPrime g t\<bar>"
  using assms by (simp add: speed_def getYPrime_def bernsteinPrime_def)

lemma getXPrime_uniform:
  assumes "fst (c0 g) - fst (p0 g) = d" "fst (c1 g) - fst (c0 g) = d" "fst (p1 g) - fst (c1 g) = d"
  shows "getXPrime g t = 3 * d"
  using assms by (simp add: getXPrime_def bernsteinPrime_def power2_eq_square algebra_simps)

lemma arcLength_uniform:
  assumes "snd (c0 g) = snd (p0 g)" "snd (c1 g) = snd (p0 g)" "snd (p1 g) = snd (p0 g)"
    and "fst (c0 g) - fst (p0 g) = d" "fst (c1 g) - fst (c0 g) = d" "fst (p1 g) - fst (c1 g) = d"
  shows "arcLength g ta tb = 3 * \<bar>d\<bar> * (tb - ta)"
proof -
  have "speed g t = 3 * \<bar>d\<bar>" for t
    using speed_flat [OF assms(1-3)] getXPrime_uniform [OF assms(4-6)] by (simp add: abs_mult)
  then show ?thesis
    by (simp add: arcLength_def subdivisions_def simpson_10)
qed

lemma far_segments:
  "buildSegments False farKnots =
     [\<lparr>p0 = (0, 0), c0 = (549755813888, 0), c1 = (2199023255552, 0), p1 = (3298534883328, 0)\<rparr>,
      \<lparr>p0 = (3298534883328, 0), c0 = (4398046511104, 0), c1 = (5497558138880, 0),
        p1 = (6597069766656, 0)\<rparr>,
      \<lparr>p0 = (6597069766656, 0), c0 = (7696581394432, 0), c1 = (9345848836096, 0),
        p1 = (9895604649984, 0)\<rparr>]"
  by (simp add: buildSegments_def buildSegment_def knotTangent_def farKnots_def Let_def
      tension_def padd_def psub_def pscale_def upt_rec)

lemma far_table:
  "buildTable (buildSegments False farKnots) = [3298534883328, 6597069766656, 9895604649984]"
  by (simp add: far_segments buildTable_def arcLength_def subdivisions_def simpson_10 speed_flat
      getXPrime_def bernsteinPrime_def clamp01_def power2_eq_square)

lemma near_segments:
  "buildSegments False nearKnots =
     [\<lparr>p0 = (0, 0), c0 = (1 / 2, 0), c1 = (2, 0), p1 = (3, 0)\<rparr>,
      \<lparr>p0 = (3, 0), c0 = (4, 0), c1 = (5, 0), p1 = (6, 0)\<rparr>,
      \<lparr>p0 = (6, 0), c0 = (7, 0), c1 = (17 / 2, 0), p1 = (9, 0)\<rparr>]"
  by (simp add: buildSegments_def buildSegment_def knotTangent_def nearKnots_def Let_def
      tension_def padd_def psub_def pscale_def upt_rec)

lemma near_table:
  "buildTable (buildSegments False nearKnots) = [3, 6, 9]"
  by (simp add: near_segments buildTable_def arcLength_def subdivisions_def simpson_10 speed_flat
      getXPrime_def bernsteinPrime_def clamp01_def power2_eq_square)

lemma farSpline_eval:
  "segments farSpline = buildSegments False farKnots"
  "arcLengthTable farSpline = [3298534883328, 6597069766656, 9895604649984]"
  by (simp_all add: farSpline_def recompute_def setData_def new_Spline_def far_table zip_map_fst_snd)

lemma nearSpline_eval:
  "segments nearSpline = buildSegments False nearKnots"
  "arcLengthTable nearSpline = [3, 6, 9]"
  by (simp_all add: nearSpline_def recompute_def setData_def new_Spline_def near_table zip_map_fst_snd)

lemma length_cumulative: "length (cumulative acc gs) = length gs"
  by (induction gs arbitrary: acc) simp_all

lemma locate_less: "table \<noteq> [] \<Longrightarrow> locate table s < length table"
  by (induction table) auto

lemma bisect_range:
  "lo \<le> hi \<Longrightarrow> lo \<le> fst (bisect f target eps k lo hi) \<and> fst (bisect f target eps k lo hi) \<le> hi"
proof (induction k arbitrary: lo hi)
  case 0
  then show ?case by simp
next
  case (Suc k)
  have m: "lo \<le> (lo + hi) / 2" "(lo + hi) / 2 \<le> hi" using Suc.prems by simp_all
  from Suc.IH [OF m(1)] Suc.IH [OF m(2)] m show ?case
    by (auto simp: Let_def)
qed



lemma speed_nonneg: "0 \<le> speed g t"
  by (simp add: speed_def)

lemma simpson_nonneg:
  assumes "\<And>t. 0 \<le> f t" "a \<le> b"
  shows "0 \<le> simpson n f a b"
proof -
  have "0 \<le> sum_list (map (\<lambda>k. (if odd k then 4 else 2) * f (a + real k * ((b - a) / real n))) [1 ..< n])"
    by (rule sum_list_nonneg) (auto simp: assms(1))
  then show ?thesis
    using assms by (simp add: simpson_def Let_def)
qed

lemma arcLength_nonneg: "ta \<le> tb \<Longrightarrow> 0 \<le> arcLength g ta tb"
  by (simp add: arcLength_def simpson_nonneg speed_nonneg)

lemma cumulative_last:
  "0 \<le> acc \<Longrightarrow> gs \<noteq> [] \<Longrightarrow> 0 \<le> last (cumulative acc gs)"
proof (induction gs arbitrary: acc)
  case Nil
  then show ?case by simp
next
  case (Cons g gs)
  have a: "0 \<le> acc + arcLength g 0 1" using Cons.prems(1) arcLength_nonneg [of 0 1 g] by simp
  show ?case
  proof (cases "gs = []")
    case True
    then show ?thesis using a by simp
  next
    case False
    then have "cumulative (acc + arcLength g 0 1) gs \<noteq> []"
      using length_cumulative [of "acc + arcLength g 0 1" gs] by auto
    then show ?thesis using Cons.IH [OF a False] by simp
  qed
qed

lemma tableLength_nonneg: "0 \<le> tableLength (buildTable gs)"
proof (cases "gs = []")
  case True
  then show ?thesis by (simp add: tableLength_def buildTable_def)
next
  case False
  then show ?thesis
    using cumulative_last [of 0 gs] by (simp add: tableLength_def buildTable_def)
qed

lemma clampTo_range: "lo \<le> hi \<Longrightarrow> lo \<le> clampTo lo hi s \<and> clampTo lo hi s \<le> hi"
  by (simp add: clampTo_def)

lemma clampTo_idem: "lo \<le> hi \<Longrightarrow> clampTo lo hi (clampTo lo hi s) = clampTo lo hi s"
  by (simp add: clampTo_def)


lemma arcLength_empty_interval: "arcLength g ta ta = 0"
  by (simp add: arcLength_def simpson_def)

lemma invert_some:
  assumes "gs \<noteq> []"
  shows "invert (buildTable gs) gs s =
     Some (locate (buildTable gs) (clampTo 0 (tableLength (buildTable gs)) s),
           fst (invertSearch (buildTable gs) gs s))
     \<and> locate (buildTable gs) (clampTo 0 (tableLength (buildTable gs)) s) < length gs"
proof -
  have l: "length (buildTable gs) = length gs" by (simp add: buildTable_def length_cumulative)
  then have "buildTable gs \<noteq> []" using assms by auto
  from locate_less [OF this] l show ?thesis
    by (simp add: invert_def localTarget_def Let_def)
qed

lemma bisect_far:
  "bisect (\<lambda>t. 3298534883328 * t) 1099511627776 epsilon maxIterations 0 1
     = (375299968947541 / 1125899906842624, False)"
  by (simp add: maxIterations_def epsilon_def bisect_numeral Let_def)

lemma far_middle:
  "arcLength (buildSegments False farKnots ! Suc 0) 0 t = 3298534883328 * t"
  "arcLength (buildSegments False farKnots ! 1) 0 = (\<lambda>t. 3298534883328 * t)"
proof -
  show a: "arcLength (buildSegments False farKnots ! Suc 0) 0 t = 3298534883328 * t" for t
    using arcLength_uniform [of "buildSegments False farKnots ! Suc 0" 1099511627776 0 t]
    by (simp add: far_segments)
  show "arcLength (buildSegments False farKnots ! 1) 0 = (\<lambda>t. 3298534883328 * t)"
    using a by (simp add: fun_eq_iff)
qed

lemma near_middle:
  "arcLength (buildSegments False nearKnots ! Suc 0) 0 t = 3 * t"
  "arcLength (buildSegments False nearKnots ! 1) 0 = (\<lambda>t. 3 * t)"
proof -
  show a: "arcLength (buildSegments False nearKnots ! Suc 0) 0 t = 3 * t" for t
    using arcLength_uniform [of "buildSegments False nearKnots ! Suc 0" 1 0 t]
    by (simp add: near_segments)
  show "arcLength (buildSegments False nearKnots ! 1) 0 = (\<lambda>t. 3 * t)"
    using a by (simp add: fun_eq_iff)
qed

lemma far_search:
  "localTarget (arcLengthTable farSpline) 4398046511104 = (1, 1099511627776)"
  "invertSearch (arcLengthTable farSpline) (segments farSpline) 4398046511104
     = (375299968947541 / 1125899906842624, False)"
proof -
  show l: "localTarget (arcLengthTable farSpline) 4398046511104 = (1, 1099511627776)"
    by (simp add: farSpline_eval localTarget_def tableLength_def clampTo_def tableBefore_def)
  show "invertSearch (arcLengthTable farSpline) (segments farSpline) 4398046511104
     = (375299968947541 / 1125899906842624, False)"
    by (simp only: invertSearch_def l Let_def split farSpline_eval(1) far_middle bisect_far)
qed

text \<open>
  The bisection keeps a bracket that encloses the target: started with the target
  between the values at the two ends, every bracket it moves to has the target between
  the values at its ends, and the parameter returned is the midpoint of the last one.
\<close>

lemma bisect_trace:
  assumes "lo \<le> hi" "f lo \<le> target" "target \<le> f hi"
  shows "\<exists>lo' hi' j. j \<le> k \<and> lo \<le> lo' \<and> lo' \<le> hi' \<and> hi' \<le> hi
      \<and> hi' - lo' = (hi - lo) / 2 ^ j
      \<and> f lo' \<le> target \<and> target \<le> f hi'
      \<and> fst (bisect f target eps (Suc k) lo hi) = (lo' + hi') / 2
      \<and> (snd (bisect f target eps (Suc k) lo hi) \<longleftrightarrow> \<bar>f ((lo' + hi') / 2) - target\<bar> < eps)
      \<and> (\<not> snd (bisect f target eps (Suc k) lo hi) \<longrightarrow> j = k)"
  using assms
proof (induction k arbitrary: lo hi)
  case 0
  show ?case
    apply (rule exI [of _ lo], rule exI [of _ hi], rule exI [of _ 0])
    using "0.prems" by (simp add: Let_def)
next
  case (Suc k)
  let ?mid = "(lo + hi) / 2"
  show ?case
  proof (cases "\<bar>f ?mid - target\<bar> < eps")
    case True
    have e: "bisect f target eps (Suc (Suc k)) lo hi = (?mid, True)"
      using True by (subst bisect.simps(2)) (simp add: Let_def del: bisect.simps)
    show ?thesis
      apply (rule exI [of _ lo], rule exI [of _ hi], rule exI [of _ 0])
      using Suc.prems True by (simp add: e del: bisect.simps)
  next
    case nm: False
    show ?thesis
    proof (cases "f ?mid < target")
      case True
      have e: "bisect f target eps (Suc (Suc k)) lo hi = bisect f target eps (Suc k) ?mid hi"
        using nm True by (subst bisect.simps(2)) (simp add: Let_def del: bisect.simps)
      have p: "?mid \<le> hi" "f ?mid \<le> target" "target \<le> f hi"
        using Suc.prems True by simp_all
      from Suc.IH [OF p] obtain lo' hi' j where h:
        "j \<le> k" "?mid \<le> lo'" "lo' \<le> hi'" "hi' \<le> hi" "hi' - lo' = (hi - ?mid) / 2 ^ j"
        "f lo' \<le> target" "target \<le> f hi'"
        "fst (bisect f target eps (Suc k) ?mid hi) = (lo' + hi') / 2"
        "snd (bisect f target eps (Suc k) ?mid hi) \<longleftrightarrow> \<bar>f ((lo' + hi') / 2) - target\<bar> < eps"
        "\<not> snd (bisect f target eps (Suc k) ?mid hi) \<longrightarrow> j = k"
        by blast
      have w: "hi' - lo' = (hi - lo) / 2 ^ Suc j"
        using h(5) by (simp add: field_simps)
      have l: "lo \<le> lo'" using h(2) Suc.prems(1) by simp
      show ?thesis
        apply (rule exI [of _ lo'], rule exI [of _ hi'], rule exI [of _ "Suc j"])
        using h(1,3,4,6,7,8,9,10) w l by (simp only: e) simp
    next
      case False
      have e: "bisect f target eps (Suc (Suc k)) lo hi = bisect f target eps (Suc k) lo ?mid"
        using nm False by (subst bisect.simps(2)) (simp add: Let_def del: bisect.simps)
      have p: "lo \<le> ?mid" "f lo \<le> target" "target \<le> f ?mid"
        using Suc.prems False by simp_all
      from Suc.IH [OF p] obtain lo' hi' j where h:
        "j \<le> k" "lo \<le> lo'" "lo' \<le> hi'" "hi' \<le> ?mid" "hi' - lo' = (?mid - lo) / 2 ^ j"
        "f lo' \<le> target" "target \<le> f hi'"
        "fst (bisect f target eps (Suc k) lo ?mid) = (lo' + hi') / 2"
        "snd (bisect f target eps (Suc k) lo ?mid) \<longleftrightarrow> \<bar>f ((lo' + hi') / 2) - target\<bar> < eps"
        "\<not> snd (bisect f target eps (Suc k) lo ?mid) \<longrightarrow> j = k"
        by blast
      have w: "hi' - lo' = (hi - lo) / 2 ^ Suc j"
        using h(5) by (simp add: field_simps)
      have l: "hi' \<le> hi" using h(4) Suc.prems(1) by simp
      show ?thesis
        apply (rule exI [of _ lo'], rule exI [of _ hi'], rule exI [of _ "Suc j"])
        using h(1,2,3,6,7,8,9,10) w l by (simp only: e) simp
    qed
  qed
qed

lemma bisect_not_met:
  "\<not> snd (bisect f target eps (Suc k) lo hi) \<Longrightarrow>
   \<not> \<bar>f (fst (bisect f target eps (Suc k) lo hi)) - target\<bar> < eps"
proof (induction k arbitrary: lo hi)
  case 0
  then show ?case by (simp add: Let_def split: if_splits)
next
  case (Suc k)
  from Suc.prems Suc.IH [of "(lo + hi) / 2" hi] Suc.IH [of lo "(lo + hi) / 2"]
  show ?case
    by (subst (asm) bisect.simps(2), subst bisect.simps(2))
       (simp add: Let_def del: bisect.simps split: if_splits)
qed

text \<open>
  For a function that changes at most \<open>L\<close> times as fast as its argument, the value at
  the midpoint of an enclosing bracket misses the target by at most \<open>L\<close> times half the
  width of the bracket.
\<close>

lemma bracket_midpoint_error:
  fixes lo hi L :: real and f :: "real \<Rightarrow> real"
  assumes lip: "\<And>u v. lo \<le> u \<Longrightarrow> u \<le> hi \<Longrightarrow> lo \<le> v \<Longrightarrow> v \<le> hi \<Longrightarrow> \<bar>f u - f v\<bar> \<le> L * \<bar>u - v\<bar>"
    and b: "lo \<le> lo'" "lo' \<le> hi'" "hi' \<le> hi" "f lo' \<le> target" "target \<le> f hi'"
  shows "\<bar>f ((lo' + hi') / 2) - target\<bar> \<le> L * (hi' - lo') / 2"
proof -
  let ?m = "(lo' + hi') / 2"
  have m: "lo \<le> ?m" "?m \<le> hi" "lo' \<le> ?m" "?m \<le> hi'" using b by simp_all
  have 1: "\<bar>f ?m - f lo'\<bar> \<le> L * \<bar>?m - lo'\<bar>"
    using lip [of ?m lo'] m b by simp
  have 2: "\<bar>f hi' - f ?m\<bar> \<le> L * \<bar>hi' - ?m\<bar>"
    using lip [of hi' ?m] m b by simp
  have a1: "\<bar>?m - lo'\<bar> = (hi' - lo') / 2" using b by (simp add: field_simps)
  have a2: "\<bar>hi' - ?m\<bar> = (hi' - lo') / 2" using b by (simp add: field_simps)
  define X where "X = L * (hi' - lo') / 2"
  have 3: "\<bar>f ?m - f lo'\<bar> \<le> X" "\<bar>f hi' - f ?m\<bar> \<le> X"
    using 1 2 unfolding a1 a2 X_def by simp_all
  have "\<bar>f ?m - target\<bar> \<le> X"
    using 3 b(4,5) by linarith
  then show ?thesis unfolding X_def .
qed

lemma bisect_error:
  fixes lo hi L :: real and f :: "real \<Rightarrow> real"
  assumes lip: "\<And>u v. lo \<le> u \<Longrightarrow> u \<le> hi \<Longrightarrow> lo \<le> v \<Longrightarrow> v \<le> hi \<Longrightarrow> \<bar>f u - f v\<bar> \<le> L * \<bar>u - v\<bar>"
    and b: "lo \<le> hi" "f lo \<le> target" "target \<le> f hi"
  shows "(snd (bisect f target eps (Suc k) lo hi)
            \<and> \<bar>f (fst (bisect f target eps (Suc k) lo hi)) - target\<bar> < eps)
       \<or> (\<not> snd (bisect f target eps (Suc k) lo hi)
            \<and> eps \<le> \<bar>f (fst (bisect f target eps (Suc k) lo hi)) - target\<bar>
            \<and> \<bar>f (fst (bisect f target eps (Suc k) lo hi)) - target\<bar> \<le> L * (hi - lo) / 2 ^ Suc k)"
proof -
  from bisect_trace [OF b, where eps = eps and k = k] obtain lo' hi' j where h:
    "j \<le> k" "lo \<le> lo'" "lo' \<le> hi'" "hi' \<le> hi" "hi' - lo' = (hi - lo) / 2 ^ j"
    "f lo' \<le> target" "target \<le> f hi'"
    "fst (bisect f target eps (Suc k) lo hi) = (lo' + hi') / 2"
    "snd (bisect f target eps (Suc k) lo hi) \<longleftrightarrow> \<bar>f ((lo' + hi') / 2) - target\<bar> < eps"
    "\<not> snd (bisect f target eps (Suc k) lo hi) \<longrightarrow> j = k"
    by blast
  have e: "\<bar>f ((lo' + hi') / 2) - target\<bar> \<le> L * (hi' - lo') / 2"
    by (rule bracket_midpoint_error [OF lip h(2,3,4,6,7)])
  show ?thesis
  proof (cases "snd (bisect f target eps (Suc k) lo hi)")
    case True
    then show ?thesis unfolding h(8) using h(9) by blast
  next
    case False
    then have "j = k" using h(10) by blast
    then have "L * (hi' - lo') / 2 = L * (hi - lo) / 2 ^ Suc k"
      using h(5) by simp
    then have "\<bar>f ((lo' + hi') / 2) - target\<bar> \<le> L * (hi - lo) / 2 ^ Suc k"
      using e by simp
    moreover have "eps \<le> \<bar>f ((lo' + hi') / 2) - target\<bar>"
      using False h(9) by simp
    ultimately show ?thesis unfolding h(8) using False by blast
  qed
qed


text \<open>
  Bounds on the tangent and the speed of a segment in terms of its control step.
\<close>

lemma clamp01_range: "0 \<le> clamp01 t \<and> clamp01 t \<le> 1"
  by (simp add: clamp01_def)

lemma clamp01_lipschitz: "\<bar>clamp01 t - clamp01 t'\<bar> \<le> \<bar>t - t'\<bar>"
  by (simp add: clamp01_def)

lemma convex_abs_bound:
  fixes m A B E :: real
  assumes "0 \<le> m" "m \<le> 1" "\<bar>A\<bar> \<le> E" "\<bar>B\<bar> \<le> E"
  shows "\<bar>(1 - m) * A + m * B\<bar> \<le> E"
proof -
  have "\<bar>(1 - m) * A\<bar> \<le> (1 - m) * E"
    using assms(2,3) by (simp add: abs_mult mult_left_mono)
  moreover have "\<bar>m * B\<bar> \<le> m * E"
    using assms(1,4) by (simp add: abs_mult mult_left_mono)
  moreover have "(1 - m) * E + m * E = E" by (simp add: algebra_simps)
  ultimately show ?thesis by linarith
qed

lemma bernsteinPrime_convex:
  "bernsteinPrime a b c d u
     = 3 * ((1 - u) * ((1 - u) * (b - a) + u * (c - b)) + u * ((1 - u) * (c - b) + u * (d - c)))"
  by (simp add: bernsteinPrime_def power2_eq_square algebra_simps)

lemma bernsteinPrime_bound:
  assumes "0 \<le> u" "u \<le> 1" "\<bar>b - a\<bar> \<le> D" "\<bar>c - b\<bar> \<le> D" "\<bar>d - c\<bar> \<le> D"
  shows "\<bar>bernsteinPrime a b c d u\<bar> \<le> 3 * D"
proof -
  have 1: "\<bar>(1 - u) * (b - a) + u * (c - b)\<bar> \<le> D"
    by (rule convex_abs_bound [OF assms(1,2,3,4)])
  have 2: "\<bar>(1 - u) * (c - b) + u * (d - c)\<bar> \<le> D"
    by (rule convex_abs_bound [OF assms(1,2,4,5)])
  have "\<bar>(1 - u) * ((1 - u) * (b - a) + u * (c - b)) + u * ((1 - u) * (c - b) + u * (d - c))\<bar> \<le> D"
    by (rule convex_abs_bound [OF assms(1,2) 1 2])
  then show ?thesis by (simp add: bernsteinPrime_convex abs_mult)
qed

lemma bernsteinPrime_diff:
  "bernsteinPrime a b c d u - bernsteinPrime a b c d v
     = 6 * (u - v) * ((1 - (u + v) / 2) * ((c - b) - (b - a)) + ((u + v) / 2) * ((d - c) - (c - b)))"
  by (simp add: bernsteinPrime_def power2_eq_square field_simps)

lemma bernsteinPrime_lipschitz:
  assumes "0 \<le> u" "u \<le> 1" "0 \<le> v" "v \<le> 1"
    and "\<bar>b - a\<bar> \<le> D" "\<bar>c - b\<bar> \<le> D" "\<bar>d - c\<bar> \<le> D"
  shows "\<bar>bernsteinPrime a b c d u - bernsteinPrime a b c d v\<bar> \<le> 12 * D * \<bar>u - v\<bar>"
proof -
  let ?m = "(u + v) / 2"
  have m: "0 \<le> ?m" "?m \<le> 1" using assms(1-4) by simp_all
  have A: "\<bar>(c - b) - (b - a)\<bar> \<le> 2 * D" using assms(5,6) by linarith
  have B: "\<bar>(d - c) - (c - b)\<bar> \<le> 2 * D" using assms(6,7) by linarith
  have k: "\<bar>(1 - ?m) * ((c - b) - (b - a)) + ?m * ((d - c) - (c - b))\<bar> \<le> 2 * D"
    by (rule convex_abs_bound [OF m A B])
  have "\<bar>bernsteinPrime a b c d u - bernsteinPrime a b c d v\<bar>
      = 6 * \<bar>u - v\<bar> * \<bar>(1 - ?m) * ((c - b) - (b - a)) + ?m * ((d - c) - (c - b))\<bar>"
    by (simp only: bernsteinPrime_diff abs_mult abs_numeral)
  also have "\<dots> \<le> 6 * \<bar>u - v\<bar> * (2 * D)"
    by (rule mult_left_mono [OF k]) simp
  finally show ?thesis by (simp add: algebra_simps)
qed

lemma controlStep_bounds:
  assumes "controlStep g \<le> D"
  shows "\<bar>fst (c0 g) - fst (p0 g)\<bar> \<le> D" "\<bar>fst (c1 g) - fst (c0 g)\<bar> \<le> D"
    "\<bar>fst (p1 g) - fst (c1 g)\<bar> \<le> D"
    "\<bar>snd (c0 g) - snd (p0 g)\<bar> \<le> D" "\<bar>snd (c1 g) - snd (c0 g)\<bar> \<le> D"
    "\<bar>snd (p1 g) - snd (c1 g)\<bar> \<le> D"
  using assms by (simp_all add: controlStep_def)

lemma controlStep_nonneg: "0 \<le> controlStep g"
  by (simp add: controlStep_def le_max_iff_disj)

lemma maxControlStep_ge: "g \<in> set gs \<Longrightarrow> controlStep g \<le> maxControlStep gs"
  unfolding maxControlStep_def by (induction gs) auto

lemma tangent_bound:
  assumes "controlStep g \<le> D"
  shows "\<bar>getXPrime g t\<bar> \<le> 3 * D" "\<bar>getYPrime g t\<bar> \<le> 3 * D"
  using clamp01_range [of t] controlStep_bounds [OF assms]
  by (simp_all add: getXPrime_def getYPrime_def bernsteinPrime_bound)

lemma tangent_lipschitz:
  assumes "controlStep g \<le> D"
  shows "\<bar>getXPrime g t - getXPrime g t'\<bar> \<le> 12 * D * \<bar>t - t'\<bar>"
    "\<bar>getYPrime g t - getYPrime g t'\<bar> \<le> 12 * D * \<bar>t - t'\<bar>"
proof -
  have D: "0 \<le> D" using controlStep_nonneg [of g] assms by linarith
  have c: "12 * D * \<bar>clamp01 t - clamp01 t'\<bar> \<le> 12 * D * \<bar>t - t'\<bar>"
    by (rule mult_left_mono [OF clamp01_lipschitz]) (simp add: D)
  have "\<bar>getXPrime g t - getXPrime g t'\<bar> \<le> 12 * D * \<bar>clamp01 t - clamp01 t'\<bar>"
    unfolding getXPrime_def
    using clamp01_range [of t] clamp01_range [of t'] controlStep_bounds [OF assms]
    by (intro bernsteinPrime_lipschitz) simp_all
  then show "\<bar>getXPrime g t - getXPrime g t'\<bar> \<le> 12 * D * \<bar>t - t'\<bar>" using c by linarith
  have "\<bar>getYPrime g t - getYPrime g t'\<bar> \<le> 12 * D * \<bar>clamp01 t - clamp01 t'\<bar>"
    unfolding getYPrime_def
    using clamp01_range [of t] clamp01_range [of t'] controlStep_bounds [OF assms]
    by (intro bernsteinPrime_lipschitz) simp_all
  then show "\<bar>getYPrime g t - getYPrime g t'\<bar> \<le> 12 * D * \<bar>t - t'\<bar>" using c by linarith
qed

lemma speed_bound:
  assumes "controlStep g \<le> D"
  shows "speed g t \<le> 6 * D"
proof -
  have "speed g t \<le> \<bar>getXPrime g t\<bar> + \<bar>getYPrime g t\<bar>"
    unfolding speed_def by (rule sqrt_sum_squares_le_sum_abs)
  then show ?thesis using tangent_bound [OF assms, of t] by linarith
qed

lemma norm_diff_le:
  fixes x y x' y' :: real
  shows "sqrt (x ^ 2 + y ^ 2) \<le> sqrt (x' ^ 2 + y' ^ 2) + (\<bar>x - x'\<bar> + \<bar>y - y'\<bar>)"
proof -
  have "sqrt ((x' + (x - x')) ^ 2 + (y' + (y - y')) ^ 2)
      \<le> sqrt (x' ^ 2 + y' ^ 2) + sqrt ((x - x') ^ 2 + (y - y') ^ 2)"
    by (rule real_sqrt_sum_squares_triangle_ineq)
  moreover have "sqrt ((x - x') ^ 2 + (y - y') ^ 2) \<le> \<bar>x - x'\<bar> + \<bar>y - y'\<bar>"
    by (rule sqrt_sum_squares_le_sum_abs)
  ultimately show ?thesis by simp
qed

lemma speed_lipschitz:
  assumes "controlStep g \<le> D"
  shows "\<bar>speed g t - speed g t'\<bar> \<le> 24 * D * \<bar>t - t'\<bar>"
proof -
  note l = tangent_lipschitz [OF assms, of t t']
  have 1: "speed g t \<le> speed g t' + (\<bar>getXPrime g t - getXPrime g t'\<bar> + \<bar>getYPrime g t - getYPrime g t'\<bar>)"
    unfolding speed_def by (rule norm_diff_le)
  have 2: "speed g t' \<le> speed g t + (\<bar>getXPrime g t' - getXPrime g t\<bar> + \<bar>getYPrime g t' - getYPrime g t\<bar>)"
    unfolding speed_def by (rule norm_diff_le)
  have 3: "\<bar>getXPrime g t' - getXPrime g t\<bar> = \<bar>getXPrime g t - getXPrime g t'\<bar>"
    "\<bar>getYPrime g t' - getYPrime g t\<bar> = \<bar>getYPrime g t - getYPrime g t'\<bar>"
    by (simp_all add: abs_minus_commute)
  from 1 2 l show ?thesis unfolding 3 by linarith
qed

text \<open>
  The Simpson sum over \<open>[0, t]\<close> as a function of \<open>t\<close>, and with it the arc length
  of a segment from \<open>0\<close> to \<open>t\<close>.
\<close>

lemma simpson_lipschitz:
  fixes sp :: "real \<Rightarrow> real"
  assumes P: "\<And>x. 0 \<le> sp x" and M: "\<And>x. sp x \<le> M"
    and S: "\<And>x y. \<bar>sp x - sp y\<bar> \<le> S * \<bar>x - y\<bar>"
    and t: "\<bar>t'\<bar> \<le> 1"
  shows "\<bar>simpson 10 sp 0 t - simpson 10 sp 0 t'\<bar> \<le> (M + S / 2) * \<bar>t - t'\<bar>"
proof -
  define W where "W = (\<lambda>t. sp 0 + sp t
        + 4 * (sp (t / 10) + sp (3 * (t / 10)) + sp (5 * (t / 10)) + sp (7 * (t / 10))
               + sp (9 * (t / 10)))
        + 2 * (sp (2 * (t / 10)) + sp (4 * (t / 10)) + sp (6 * (t / 10)) + sp (8 * (t / 10))))"
  define e where "e = S * \<bar>t - t'\<bar>"
  have f: "simpson 10 sp 0 u = u / 30 * W u" for u
    by (simp add: simpson_10 W_def)
  have Wb: "\<bar>W t\<bar> \<le> 30 * M"
  proof -
    have "0 \<le> W t"
      unfolding W_def by (intro add_nonneg_nonneg mult_nonneg_nonneg P) simp_all
    moreover have "W t \<le> 30 * M"
      unfolding W_def
      using M [of 0] M [of t] M [of "t / 10"] M [of "3 * (t / 10)"] M [of "5 * (t / 10)"]
        M [of "7 * (t / 10)"] M [of "9 * (t / 10)"] M [of "2 * (t / 10)"] M [of "4 * (t / 10)"]
        M [of "6 * (t / 10)"] M [of "8 * (t / 10)"]
      by simp
    ultimately show ?thesis by simp
  qed
  have sc: "sp (c * (t / 10)) - sp (c * (t' / 10)) \<le> c / 10 * e
      \<and> sp (c * (t' / 10)) - sp (c * (t / 10)) \<le> c / 10 * e" if c: "0 \<le> c" for c
  proof -
    have "c * (t / 10) - c * (t' / 10) = c / 10 * (t - t')" by (simp add: algebra_simps)
    then have "\<bar>c * (t / 10) - c * (t' / 10)\<bar> = \<bar>c / 10 * (t - t')\<bar>"
      by (simp only:)
    also have "\<dots> = c / 10 * \<bar>t - t'\<bar>"
      using c by (simp add: abs_mult)
    finally have q: "\<bar>c * (t / 10) - c * (t' / 10)\<bar> = c / 10 * \<bar>t - t'\<bar>" .
    have "\<bar>sp (c * (t / 10)) - sp (c * (t' / 10))\<bar> \<le> S * (c / 10 * \<bar>t - t'\<bar>)"
      using S [of "c * (t / 10)" "c * (t' / 10)"] by (simp only: q)
    also have "S * (c / 10 * \<bar>t - t'\<bar>) = c / 10 * e" by (simp add: e_def)
    finally show ?thesis by linarith
  qed
  have s1: "sp (t / 10) - sp (t' / 10) \<le> 1 / 10 * e \<and> sp (t' / 10) - sp (t / 10) \<le> 1 / 10 * e"
    using sc [of 1] by simp
  have s10: "sp t - sp t' \<le> e \<and> sp t' - sp t \<le> e"
    using S [of t t'] unfolding e_def by linarith
  note n = s1 sc [of 2] sc [of 3] sc [of 4] sc [of 5] sc [of 6] sc [of 7] sc [of 8] sc [of 9] s10
  have Wd: "\<bar>W t - W t'\<bar> \<le> 15 * e"
  proof -
    have "W t - W t' \<le> 15 * e" unfolding W_def using n by simp
    moreover have "W t' - W t \<le> 15 * e" unfolding W_def using n by simp
    ultimately show ?thesis by linarith
  qed
  have d: "simpson 10 sp 0 t - simpson 10 sp 0 t' = (t - t') / 30 * W t + t' / 30 * (W t - W t')"
    by (simp add: f field_simps)
  have a: "\<bar>(t - t') / 30 * W t\<bar> \<le> \<bar>t - t'\<bar> / 30 * (30 * M)"
    unfolding abs_mult by (rule mult_mono [OF _ Wb]) simp_all
  have "\<bar>t' / 30 * (W t - W t')\<bar> \<le> 1 / 30 * (15 * e)"
    unfolding abs_mult by (rule mult_mono [OF _ Wd]) (use t in simp_all)
  with a have "\<bar>simpson 10 sp 0 t - simpson 10 sp 0 t'\<bar> \<le> \<bar>t - t'\<bar> / 30 * (30 * M) + 1 / 30 * (15 * e)"
    unfolding d by linarith
  also have "\<dots> = (M + S / 2) * \<bar>t - t'\<bar>"
    by (simp add: e_def algebra_simps)
  finally show ?thesis .
qed

lemma arcLength_lipschitz:
  assumes "controlStep g \<le> D" "\<bar>t'\<bar> \<le> 1"
  shows "\<bar>arcLength g 0 t - arcLength g 0 t'\<bar> \<le> 18 * D * \<bar>t - t'\<bar>"
proof -
  have "\<bar>simpson 10 (speed g) 0 t - simpson 10 (speed g) 0 t'\<bar> \<le> (6 * D + 24 * D / 2) * \<bar>t - t'\<bar>"
    by (rule simpson_lipschitz [OF speed_nonneg speed_bound [OF assms(1)]
          speed_lipschitz [OF assms(1)] assms(2)])
  then show ?thesis by (simp add: arcLength_def subdivisions_def algebra_simps)
qed

text \<open>
  The table and the segment the inverter selects: the local target lies between \<open>0\<close>
  and the length of the selected segment.
\<close>

lemma cumulative_nth:
  "i < length gs \<Longrightarrow>
   cumulative acc gs ! i = (if i = 0 then acc else cumulative acc gs ! (i - 1)) + arcLength (gs ! i) 0 1"
proof (induction gs arbitrary: acc i)
  case Nil
  then show ?case by simp
next
  case (Cons g gs)
  show ?case
  proof (cases i)
    case 0
    then show ?thesis by simp
  next
    case (Suc j)
    then have j: "j < length gs" using Cons.prems by simp
    from Cons.IH [OF j, of "acc + arcLength g 0 1"] Suc show ?thesis
      by (cases j) simp_all
  qed
qed

lemma table_step:
  "idx < length gs \<Longrightarrow>
   buildTable gs ! idx = tableBefore (buildTable gs) idx + arcLength (gs ! idx) 0 1"
  using cumulative_nth [of idx gs 0] by (simp add: buildTable_def tableBefore_def)

lemma locate_upper:
  "table \<noteq> [] \<Longrightarrow> s \<le> last table \<Longrightarrow> s \<le> table ! locate table s"
  by (induction table) auto

lemma locate_lower:
  "0 < locate table s \<Longrightarrow> table ! (locate table s - 1) < s"
proof (induction table)
  case Nil
  then show ?case by simp
next
  case (Cons c cs)
  then have n: "\<not> s \<le> c" "cs \<noteq> []" by (auto split: if_splits)
  show ?case
  proof (cases "locate cs s")
    case 0
    then show ?thesis using n by simp
  next
    case (Suc j)
    then have "cs ! (locate cs s - 1) < s" using Cons.IH by simp
    then show ?thesis using n Suc by simp
  qed
qed

lemma localTarget_bracket:
  assumes n: "gs \<noteq> []"
  shows "0 \<le> snd (localTarget (buildTable gs) s)
     \<and> snd (localTarget (buildTable gs) s)
          \<le> arcLength (gs ! fst (localTarget (buildTable gs) s)) 0 1"
proof -
  let ?T = "buildTable gs"
  let ?s = "clampTo 0 (tableLength ?T) s"
  let ?idx = "locate ?T ?s"
  have l: "length ?T = length gs" by (simp add: buildTable_def length_cumulative)
  then have ne: "?T \<noteq> []" using n by auto
  have L: "0 \<le> tableLength ?T" by (rule tableLength_nonneg)
  have cr: "0 \<le> ?s" "?s \<le> last ?T"
    using clampTo_range [OF L, of s] ne by (simp_all add: tableLength_def)
  have i: "?idx < length gs" using locate_less [OF ne, of ?s] l by simp
  have lo: "tableBefore ?T ?idx \<le> ?s"
  proof (cases "?idx = 0")
    case True
    then show ?thesis using cr(1) by (simp add: tableBefore_def)
  next
    case False
    then have "?T ! (?idx - 1) < ?s" using locate_lower [of ?T ?s] by simp
    then show ?thesis using False by (simp add: tableBefore_def)
  qed
  have "?s \<le> ?T ! ?idx" by (rule locate_upper [OF ne cr(2)])
  then have hi: "?s - tableBefore ?T ?idx \<le> arcLength (gs ! ?idx) 0 1"
    using table_step [OF i] by simp
  show ?thesis using lo hi by (simp add: localTarget_def Let_def)
qed

lemma invertSearch_unfold:
  "invertSearch table gs s =
     bisect (\<lambda>t. arcLength (gs ! fst (localTarget table s)) 0 t) (snd (localTarget table s))
       epsilon maxIterations 0 1"
  by (simp add: invertSearch_def split_def Let_def del: bisect.simps)

lemma invertSearch_error:
  assumes n: "gs \<noteq> []"
  shows "(snd (invertSearch (buildTable gs) gs s)
           \<and> \<bar>arcLength (gs ! fst (localTarget (buildTable gs) s)) 0
                 (fst (invertSearch (buildTable gs) gs s)) - snd (localTarget (buildTable gs) s)\<bar>
               < epsilon)
       \<or> (\<not> snd (invertSearch (buildTable gs) gs s)
           \<and> epsilon \<le> \<bar>arcLength (gs ! fst (localTarget (buildTable gs) s)) 0
                 (fst (invertSearch (buildTable gs) gs s)) - snd (localTarget (buildTable gs) s)\<bar>
           \<and> \<bar>arcLength (gs ! fst (localTarget (buildTable gs) s)) 0
                 (fst (invertSearch (buildTable gs) gs s)) - snd (localTarget (buildTable gs) s)\<bar>
               \<le> 18 * maxControlStep gs / 2 ^ maxIterations)"
proof -
  let ?T = "buildTable gs"
  let ?idx = "fst (localTarget ?T s)"
  let ?loc = "snd (localTarget ?T s)"
  let ?f = "\<lambda>t. arcLength (gs ! ?idx) 0 t"
  have i: "?idx < length gs"
    using invert_some [OF n, of s] by (simp add: localTarget_def Let_def)
  then have g: "controlStep (gs ! ?idx) \<le> maxControlStep gs"
    by (intro maxControlStep_ge) simp
  have lip: "\<bar>?f u - ?f v\<bar> \<le> 18 * maxControlStep gs * \<bar>u - v\<bar>"
    if "0 \<le> u" "u \<le> 1" "0 \<le> v" "v \<le> 1" for u v
    using arcLength_lipschitz [OF g, of v u] that by simp
  have b: "(0::real) \<le> 1" "?f 0 \<le> ?loc" "?loc \<le> ?f 1"
    using localTarget_bracket [OF n, of s] by (simp_all add: arcLength_empty_interval)
  have m: "maxIterations = Suc 49" by (simp add: maxIterations_def)
  from bisect_error [of 0 1 ?f "18 * maxControlStep gs" ?loc epsilon 49, OF lip b]
  show ?thesis
    unfolding invertSearch_unfold m by (simp del: bisect.simps)
qed

text \<open>
  The Simpson rule is exact on a quadratic, and the tangent of a cubic is one: on a
  straight segment whose control points advance in one direction the integrator returns
  the distance travelled.
\<close>

lemma simpson_10_cong:
  assumes "\<And>u. a \<le> u \<Longrightarrow> u \<le> b \<Longrightarrow> f u = h u" "a \<le> b"
  shows "simpson 10 f a b = simpson 10 h a b"
proof -
  have "f (a + c * ((b - a) / 10)) = h (a + c * ((b - a) / 10))" if "0 \<le> c" "c \<le> 10" for c
  proof (rule assms(1))
    have "0 \<le> c * ((b - a) / 10)" using that(1) assms(2) by simp
    then show "a \<le> a + c * ((b - a) / 10)" by simp
    have "c * ((b - a) / 10) \<le> 10 * ((b - a) / 10)"
      by (rule mult_right_mono [OF that(2)]) (use assms(2) in simp)
    then show "a + c * ((b - a) / 10) \<le> b" by simp
  qed
  note n = this [of 1] this [of 2] this [of 3] this [of 4] this [of 5] this [of 6] this [of 7]
    this [of 8] this [of 9]
  have e: "f a = h a" "f b = h b" using assms by simp_all
  show ?thesis
    unfolding simpson_10 using n e by simp
qed

lemma simpson_quadratic:
  "simpson 10 (\<lambda>u. A + B * u + C * u ^ 2) a b
     = A * (b - a) + B * (b ^ 2 - a ^ 2) / 2 + C * (b ^ 3 - a ^ 3) / 3"
  unfolding simpson_10 by (simp add: power2_eq_square power3_eq_cube field_simps)

lemma bernsteinPrime_poly:
  "bernsteinPrime a b c d u
     = 3 * (b - a) + 6 * ((c - b) - (b - a)) * u + 3 * ((d - c) - 2 * (c - b) + (b - a)) * u ^ 2"
  by (simp add: bernsteinPrime_def power2_eq_square algebra_simps)

lemma bernsteinPrime_nonneg:
  assumes "0 \<le> u" "u \<le> 1" "a \<le> b" "b \<le> c" "c \<le> d"
  shows "0 \<le> bernsteinPrime a b c d u"
  unfolding bernsteinPrime_def using assms by (intro add_nonneg_nonneg mult_nonneg_nonneg) simp_all

lemma bernstein_integral:
  "3 * (b - a) * (tb - ta) + 6 * ((c - b) - (b - a)) * (tb ^ 2 - ta ^ 2) / 2
     + 3 * ((d - c) - 2 * (c - b) + (b - a)) * (tb ^ 3 - ta ^ 3) / 3
   = bernstein a b c d tb - bernstein a b c d ta"
  by (simp add: bernstein_def power2_eq_square power3_eq_cube field_simps)

lemma arcLength_straight:
  assumes flat: "snd (c0 g) = snd (p0 g)" "snd (c1 g) = snd (p0 g)" "snd (p1 g) = snd (p0 g)"
    and mono: "fst (p0 g) \<le> fst (c0 g)" "fst (c0 g) \<le> fst (c1 g)" "fst (c1 g) \<le> fst (p1 g)"
    and t: "0 \<le> ta" "ta \<le> tb" "tb \<le> 1"
  shows "arcLength g ta tb = getX g tb - getX g ta"
proof -
  let ?q = "\<lambda>u. bernsteinPrime (fst (p0 g)) (fst (c0 g)) (fst (c1 g)) (fst (p1 g)) u"
  have sp: "speed g u = ?q u" if "ta \<le> u" "u \<le> tb" for u
  proof -
    have u: "0 \<le> u" "u \<le> 1" using that t by simp_all
    then have c: "clamp01 u = u" by (simp add: clamp01_def)
    have "0 \<le> ?q u" by (rule bernsteinPrime_nonneg [OF u mono])
    then show ?thesis using speed_flat [OF flat, of u] by (simp add: getXPrime_def c)
  qed
  have c: "clamp01 ta = ta" "clamp01 tb = tb" using t by (simp_all add: clamp01_def)
  have "arcLength g ta tb = simpson 10 ?q ta tb"
    unfolding arcLength_def subdivisions_def by (rule simpson_10_cong [OF sp t(2)])
  also have "\<dots> = getX g tb - getX g ta"
    unfolding bernsteinPrime_poly simpson_quadratic bernstein_integral getX_def c ..
  finally show ?thesis .
qed






text \<open>
  Searches on the knots three units apart that narrow the bracket before they stop.
\<close>

lemma bisect_near_third:
  "bisect (\<lambda>t. 3 * t) 1 epsilon maxIterations 0 1 = (349525 / 1048576, True)"
  by (simp add: maxIterations_def epsilon_def bisect_numeral Let_def)

lemma near_search_third:
  "localTarget (buildTable (buildSegments False nearKnots)) 4 = (1, 1)"
  "invertSearch (buildTable (buildSegments False nearKnots)) (buildSegments False nearKnots) 4
     = (349525 / 1048576, True)"
proof -
  show l: "localTarget (buildTable (buildSegments False nearKnots)) 4 = (1, 1)"
    by (simp add: near_table localTarget_def tableLength_def clampTo_def tableBefore_def)
  show "invertSearch (buildTable (buildSegments False nearKnots)) (buildSegments False nearKnots) 4
     = (349525 / 1048576, True)"
    by (simp only: invertSearch_def l Let_def split near_middle bisect_near_third)
qed

lemma near_maxControlStep: "maxControlStep (buildSegments False nearKnots) = 3 / 2"
  by (simp add: near_segments maxControlStep_def controlStep_def)


text \<open>
  No midpoint of a bisection of \<open>[0, 1]\<close> is a third: its distance from \<open>1/3\<close> is at
  least a third of the width of the bracket. So for every tolerance and every iteration
  budget the search for a third of the length of a uniform segment ends on its budget
  once the segment is long enough, and on four knots on a line, \<open>c\<close> units apart, the
  round trip at \<open>s = 4c/3\<close> misses by epsilon or more for every
  \<open>c \<ge> 3 * epsilon * 2^maxIterations\<close>.
\<close>

lemma odd_gap:
  fixes a :: int
  shows "(1::real) \<le> \<bar>3 * (2 * of_int a + 1) - 2 ^ Suc i\<bar>"
proof -
  have "odd (3 * (2 * a + 1) - 2 ^ Suc i)" by simp
  then have "3 * (2 * a + 1) - 2 ^ Suc i \<noteq> 0" by (metis even_zero)
  then have "1 \<le> \<bar>3 * (2 * a + 1) - 2 ^ Suc i\<bar>" by linarith
  then have "(1::real) \<le> of_int \<bar>3 * (2 * a + 1) - 2 ^ Suc i\<bar>" by linarith
  then show ?thesis by simp
qed

lemma third_gap:
  fixes a :: int and c :: real
  assumes c: "0 \<le> c"
  shows "c / (3 * 2 ^ Suc i) \<le> \<bar>c * ((2 * of_int a + 1) / 2 ^ Suc i) - c / 3\<bar>"
proof -
  have "c * ((2 * of_int a + 1) / 2 ^ Suc i) - c / 3
      = c / (3 * 2 ^ Suc i) * (3 * (2 * of_int a + 1) - 2 ^ Suc i)"
    by (simp add: field_simps)
  then have "\<bar>c * ((2 * of_int a + 1) / 2 ^ Suc i) - c / 3\<bar>
      = c / (3 * 2 ^ Suc i) * \<bar>3 * (2 * of_int a + 1) - 2 ^ Suc i\<bar>"
    using c by (simp only: abs_mult) simp
  moreover have "c / (3 * 2 ^ Suc i) * 1 \<le> c / (3 * 2 ^ Suc i) * \<bar>3 * (2 * of_int a + 1) - 2 ^ Suc i\<bar>"
    by (rule mult_left_mono [OF odd_gap]) (use c in simp)
  ultimately show ?thesis by simp
qed

lemma bisect_third_never_met:
  fixes a :: int
  assumes e: "0 < eps" and c: "3 * eps * 2 ^ (i + n) \<le> c"
  shows "\<not> snd (bisect (\<lambda>t. c * t) (c / 3) eps n (of_int a / 2 ^ i) ((of_int a + 1) / 2 ^ i))"
  using c
proof (induction n arbitrary: i a)
  case 0
  show ?case by simp
next
  case (Suc n)
  let ?lo = "of_int a / 2 ^ i :: real"
  let ?hi = "(of_int a + 1) / 2 ^ i :: real"
  let ?mid = "(2 * of_int a + 1) / 2 ^ Suc i :: real"
  have m: "(?lo + ?hi) / 2 = ?mid" by (simp add: field_simps)
  have "0 \<le> 3 * eps * 2 ^ (i + Suc n)" using e by simp
  then have c0: "0 \<le> c" using Suc.prems by linarith
  have "eps * (3 * 2 ^ Suc i) * 1 \<le> eps * (3 * 2 ^ Suc i) * 2 ^ n"
    by (rule mult_left_mono) (use e in simp_all)
  also have "\<dots> = 3 * eps * 2 ^ (i + Suc n)" by (simp add: power_add)
  finally have "eps * (3 * 2 ^ Suc i) \<le> c" using Suc.prems by simp
  then have "eps \<le> c / (3 * 2 ^ Suc i)" by (simp add: pos_le_divide_eq)
  then have nm: "\<not> \<bar>c * ?mid - c / 3\<bar> < eps"
    using third_gap [OF c0, where a = a and i = i] by linarith
  have p: "3 * eps * 2 ^ (Suc i + n) \<le> c" using Suc.prems by simp
  have l: "?lo = of_int (2 * a) / 2 ^ Suc i" "?mid = (of_int (2 * a) + 1) / 2 ^ Suc i"
    by simp_all
  have h: "?mid = of_int (2 * a + 1) / 2 ^ Suc i" "?hi = (of_int (2 * a + 1) + 1) / 2 ^ Suc i"
    by (simp_all add: field_simps)
  have 1: "\<not> snd (bisect (\<lambda>t. c * t) (c / 3) eps n ?lo ?mid)"
    unfolding l by (rule Suc.IH [OF p])
  have 2: "\<not> snd (bisect (\<lambda>t. c * t) (c / 3) eps n ?mid ?hi)"
    unfolding h by (rule Suc.IH [OF p])
  show ?case
    using nm 1 2 by (subst bisect.simps(2)) (simp add: Let_def m del: bisect.simps)
qed

lemma line_segments:
  "buildSegments False (lineKnots c) =
     [\<lparr>p0 = (0, 0), c0 = (c / 6, 0), c1 = (2 * c / 3, 0), p1 = (c, 0)\<rparr>,
      \<lparr>p0 = (c, 0), c0 = (4 * c / 3, 0), c1 = (5 * c / 3, 0), p1 = (2 * c, 0)\<rparr>,
      \<lparr>p0 = (2 * c, 0), c0 = (7 * c / 3, 0), c1 = (17 * c / 6, 0), p1 = (3 * c, 0)\<rparr>]"
  by (simp add: buildSegments_def buildSegment_def knotTangent_def lineKnots_def Let_def
      tension_def padd_def psub_def pscale_def upt_rec)

lemma line_middle:
  assumes "0 \<le> c"
  shows "arcLength (buildSegments False (lineKnots c) ! Suc 0) 0 t = c * t"
  using arcLength_uniform [of "buildSegments False (lineKnots c) ! Suc 0" "c / 3" 0 t] assms
  by (simp add: line_segments)

lemma line_table:
  assumes "0 \<le> c"
  shows "buildTable (buildSegments False (lineKnots c)) = [c, 2 * c, 3 * c]"
proof -
  let ?a = "\<lparr>p0 = (0, 0), c0 = (c / 6, 0), c1 = (2 * c / 3, 0), p1 = (c, 0)\<rparr>"
  let ?b = "\<lparr>p0 = (c, 0), c0 = (4 * c / 3, 0), c1 = (5 * c / 3, 0), p1 = (2 * c, 0)\<rparr>"
  let ?d = "\<lparr>p0 = (2 * c, 0), c0 = (7 * c / 3, 0), c1 = (17 * c / 6, 0), p1 = (3 * c, 0)\<rparr>"
  have a: "arcLength ?a 0 1 = c"
    using arcLength_straight [of ?a 0 1] assms
    by (simp add: getX_def bernstein_def clamp01_def)
  have b: "arcLength ?b 0 1 = c"
    using arcLength_straight [of ?b 0 1] assms
    by (simp add: getX_def bernstein_def clamp01_def)
  have d: "arcLength ?d 0 1 = c"
    using arcLength_straight [of ?d 0 1] assms
    by (simp add: getX_def bernstein_def clamp01_def)
  show ?thesis by (simp add: line_segments buildTable_def a b d)
qed

lemma line_roundtrip_fails:
  assumes c: "3 * epsilon * 2 ^ maxIterations \<le> c"
  shows "\<exists>t. invert (buildTable (buildSegments False (lineKnots c))) (buildSegments False (lineKnots c))
            (4 * c / 3) = Some (1, t)
       \<and> \<not> \<bar>forwardLength (buildTable (buildSegments False (lineKnots c)))
              (buildSegments False (lineKnots c)) (1, t) - 4 * c / 3\<bar> < epsilon"
proof -
  let ?gs = "buildSegments False (lineKnots c)"
  let ?T = "buildTable ?gs"
  have "0 < 3 * epsilon * 2 ^ maxIterations" by (simp add: epsilon_def)
  then have p: "0 < c" using c by linarith
  then have T: "?T = [c, 2 * c, 3 * c]" by (simp add: line_table)
  have l: "localTarget ?T (4 * c / 3) = (1, c / 3)"
    using p by (simp add: T localTarget_def tableLength_def clampTo_def tableBefore_def)
  have f: "(\<lambda>t. arcLength (?gs ! 1) 0 t) = (\<lambda>t. c * t)"
    using line_middle [of c] p by (simp add: fun_eq_iff)
  have s: "invertSearch ?T ?gs (4 * c / 3) = bisect (\<lambda>t. c * t) (c / 3) epsilon maxIterations 0 1"
    by (simp only: invertSearch_def l Let_def split f)
  have m: "maxIterations = Suc 49" by (simp add: maxIterations_def)
  have "\<not> snd (bisect (\<lambda>t. c * t) (c / 3) epsilon maxIterations (of_int 0 / 2 ^ 0) ((of_int 0 + 1) / 2 ^ 0))"
    using c by (intro bisect_third_never_met) (simp_all add: epsilon_def)
  then have n: "\<not> snd (bisect (\<lambda>t. c * t) (c / 3) epsilon (Suc 49) 0 1)"
    by (simp add: m del: bisect.simps)
  let ?t = "fst (bisect (\<lambda>t. c * t) (c / 3) epsilon (Suc 49) 0 1)"
  from bisect_not_met [OF n] have e: "\<not> \<bar>c * ?t - c / 3\<bar> < epsilon" .
  have iv: "invert ?T ?gs (4 * c / 3) = Some (1, ?t)"
    by (simp add: invert_def l s m Let_def del: bisect.simps) (simp add: line_segments)
  have fw: "forwardLength ?T ?gs (1, ?t) - 4 * c / 3 = c * ?t - c / 3"
    using line_middle [of c ?t] p
    by (simp add: forwardLength_def T tableBefore_def del: bisect.simps)
  have "\<not> \<bar>forwardLength ?T ?gs (1, ?t) - 4 * c / 3\<bar> < epsilon"
    unfolding fw by (rule e)
  then show ?thesis using iv by blast
qed

section \<open>Segments and the drawing loop\<close>

text \<open>
  C1. For an open spline built from \<open>n \<ge> 3\<close> knots the number of cubic segments is
  \<open>n - 1\<close> (\<open>n\<close> when closed), and the drawing loop renders exactly the segments
  \<open>0\<close> to \<open>n - 2\<close>, one cubic Bezier per consecutive knot pair. The loop counts with
  \<open>_numKnots\<close>, and \<open>onDraw\<close> does not clear the spline before it adds the markers:
  in the example session a second press of Draw leaves a spline of eight knots and
  seven segments for four markers, of which the loop renders the segments 0 to 2.
\<close>

theorem second_draw_adds_the_knots_again:
  "reachable exampleFour \<and> numKnots exampleFour = 4
   \<and> onDraw exampleFour = Inr exampleDrawn
   \<and> length (knots (spline exampleDrawn)) = 4 \<and> length (segments (spline exampleDrawn)) = 3
   \<and> onDraw exampleDrawn = Inr exampleDrawnTwice
   \<and> reachable exampleDrawnTwice
   \<and> numKnots exampleDrawnTwice = 4 \<and> length (markers exampleDrawnTwice) = 4
   \<and> length (knots (spline exampleDrawnTwice)) = 8
   \<and> length (segments (spline exampleDrawnTwice)) = 7
   \<and> splineGraphics exampleDrawnTwice =
        Some (LineStyle 2 BEZIER_LINE_COLOR 1 #
              drawBezier (segments (spline exampleDrawnTwice) ! 0)
              @ drawBezier (segments (spline exampleDrawnTwice) ! 1)
              @ drawBezier (segments (spline exampleDrawnTwice) ! 2))"
proof -
  have r4: "reachable exampleFour"
    by (simp add: exampleFour_def reachable_clickAt reachable_exampleStart)
  have h: "\<forall>m \<in> set (markers exampleDrawn). markerShape m \<noteq> None"
    "numKnots exampleDrawn = int (length (markers exampleDrawn))" "3 \<le> numKnots exampleDrawn"
    "splineGraphics exampleDrawn \<noteq> None" "stage exampleDrawn \<noteq> None"
    using exampleDrawn_eval(7,8,9) by (simp_all add: exampleDrawn_eval(5,6) del: not_None_eq)
  from onDraw_appends [OF h] obtain st' where s: "onDraw exampleDrawn = Inr st'"
    "length (knots (spline st')) = length (knots (spline exampleDrawn)) + length (markers exampleDrawn)"
    "segments (spline st') = buildSegments (closed (spline exampleDrawn)) (knots (spline st'))"
    "numKnots st' = numKnots exampleDrawn" "length (markers st') = length (markers exampleDrawn)"
    "splineGraphics st' =
           Some (LineStyle 2 BEZIER_LINE_COLOR 1 #
                 concat (map (\<lambda>i. drawBezier (segments (spline st') ! i))
                           [0 ..< length (markers exampleDrawn) - 1]))"
    by blast
  have e: "exampleDrawnTwice = st'" by (simp add: exampleDrawnTwice_def s(1))
  have k: "length (knots (spline exampleDrawnTwice)) = 8"
    using s(2) by (simp add: e exampleDrawn_eval)
  have g: "length (segments (spline exampleDrawnTwice)) = 7"
    using s(3) k by (simp add: e length_buildSegments exampleDrawn_eval)
  have u: "[0 ..< 3] = [0, 1, 2::nat]" by (simp add: upt_rec)
  have l: "length (markers exampleDrawn) - 1 = 3" by (simp add: exampleDrawn_eval)
  have d: "splineGraphics exampleDrawnTwice =
        Some (LineStyle 2 BEZIER_LINE_COLOR 1 #
              drawBezier (segments (spline exampleDrawnTwice) ! 0)
              @ drawBezier (segments (spline exampleDrawnTwice) ! 1)
              @ drawBezier (segments (spline exampleDrawnTwice) ! 2))"
    using s(6) unfolding l u e by simp
  have r1: "reachable exampleDrawn"
    using reachable.step [OF r4, of DrawButton exampleDrawn] by (simp add: exampleDrawn_eval(1))
  have r2: "reachable exampleDrawnTwice"
    using reachable.step [OF r1, of DrawButton st'] by (simp add: s(1) e)
  have n: "numKnots exampleDrawnTwice = 4" "length (markers exampleDrawnTwice) = 4"
    using s(4,5) by (simp_all add: e exampleDrawn_eval)
  show ?thesis
    using r4 exampleFour_eval(1) exampleDrawn_eval(1,2,3) s(1) r2 n k g d
    by (simp add: e)
qed

section \<open>Fewer than three knots\<close>

text \<open>
  C2. With fewer than three knots \<open>onDraw\<close> computes and draws nothing: the spline, the
  graphics, the markers and the stage are as before, and the only effect is the status
  text \<open>You must define at least three knots\<close>.
\<close>

theorem onDraw_rejects_fewer_than_three_knots:
  "numKnots st < 3 \<Longrightarrow>
   onDraw st = Inr (st\<lparr>statusTxt := ''You must define at least three knots''\<rparr>)
   \<and> (\<exists>st'. onDraw st = Inr st' \<and> spline st' = spline st \<and> splineGraphics st' = splineGraphics st
          \<and> markers st' = markers st \<and> stage st' = stage st
          \<and> statusTxt st' = ''You must define at least three knots'')"
  by (simp add: onDraw_def)

theorem onDraw_rejects_fewer_than_three_knots_witness:
  "numKnots exampleStart < 3
   \<and> onDraw exampleStart = Inr (exampleStart\<lparr>statusTxt := ''You must define at least three knots''\<rparr>)"
proof -
  have h: "numKnots exampleStart < 3" by (simp add: exampleStart_eval)
  from onDraw_rejects_fewer_than_three_knots [OF h] h show ?thesis by simp
qed

section \<open>Replacing the knots\<close>

text \<open>
  C3. \<open>setData(xs, ys)\<close> with arrays of different lengths signals a ValidationError
  and leaves the spline (knots, segments, arc-length table) exactly as it was; with
  arrays of equal length it replaces the whole knot sequence by the pairs of \<open>xs\<close> and
  \<open>ys\<close>.
\<close>

theorem setData_validates_lengths:
  "(length xs \<noteq> length ys \<longrightarrow> setData xs ys sp = (Some ValidationError, sp))
   \<and> (length xs = length ys \<longrightarrow>
        fst (setData xs ys sp) = None
        \<and> knots (snd (setData xs ys sp)) = zip xs ys
        \<and> map fst (knots (snd (setData xs ys sp))) = xs
        \<and> map snd (knots (snd (setData xs ys sp))) = ys)"
  by (simp add: setData_def)

theorem setData_validates_lengths_witness:
  "setData [1, 2] [3] new_Spline = (Some ValidationError, new_Spline)
   \<and> fst (setData [1, 2] [3, 4] new_Spline) = None
   \<and> knots (snd (setData [1, 2] [3, 4] new_Spline)) = [(1, 3), (2, 4)]"
  using setData_validates_lengths [of "[1, 2]" "[3]" new_Spline]
    setData_validates_lengths [of "[1, 2]" "[3, 4]" new_Spline]
  by simp

section \<open>Looking up a segment\<close>

text \<open>
  C4. For an integer \<open>i\<close> outside \<open>[0, segments.length)\<close> the query
  \<open>getCubicSegment(i)\<close> returns the absent value, and for \<open>i\<close> inside that range it
  returns the segment at index \<open>i\<close>; it has no failing branch. The segments are those
  of the spline the query leaves behind, which is the spline itself unless the knots had
  changed.
\<close>

theorem getCubicSegment_absent_out_of_range:
  "(i < 0 \<or> int (length (segments (snd (getCubicSegment i sp)))) \<le> i
      \<longrightarrow> fst (getCubicSegment i sp) = None)
   \<and> (0 \<le> i \<and> i < int (length (segments (snd (getCubicSegment i sp))))
      \<longrightarrow> fst (getCubicSegment i sp) = Some (segments (snd (getCubicSegment i sp)) ! nat i))
   \<and> snd (getCubicSegment i sp) = refresh sp
   \<and> (\<not> invalidated sp \<longrightarrow> snd (getCubicSegment i sp) = sp)"
  by (auto simp add: getCubicSegment_refresh refresh_def)

theorem getCubicSegment_absent_out_of_range_witness:
  "fst (getCubicSegment (- 1) exampleSpline) = None
   \<and> fst (getCubicSegment 3 exampleSpline) = None
   \<and> fst (getCubicSegment 1 exampleSpline) = Some (buildSegment False exampleKnots 1)
   \<and> snd (getCubicSegment 0 new_Spline) = new_Spline"
proof -
  have r: "segments (refresh exampleSpline) = buildSegments False exampleKnots"
    by (simp add: refresh_def recompute_def exampleSpline_eval)
  have l: "length (buildSegments False exampleKnots) = 3"
    by (simp add: length_buildSegments exampleKnots_def)
  have n: "buildSegments False exampleKnots ! Suc 0 = buildSegment False exampleKnots (Suc 0)"
    by (rule buildSegments_nth) (simp_all add: l, simp add: exampleKnots_def)
  have s: "snd (getCubicSegment i exampleSpline) = refresh exampleSpline" for i
    using getCubicSegment_absent_out_of_range [of i exampleSpline] by simp
  have a: "fst (getCubicSegment (- 1) exampleSpline) = None"
    using getCubicSegment_absent_out_of_range [of "- 1" exampleSpline] by simp
  have b: "fst (getCubicSegment 3 exampleSpline) = None"
    using getCubicSegment_absent_out_of_range [of 3 exampleSpline] by (simp add: s r l)
  have c: "fst (getCubicSegment 1 exampleSpline) = Some (buildSegment False exampleKnots 1)"
    using getCubicSegment_absent_out_of_range [of 1 exampleSpline] by (simp add: s r l n)
  have "\<not> invalidated new_Spline" by (simp add: new_Spline_def)
  with getCubicSegment_absent_out_of_range [of 0 new_Spline]
  have d: "snd (getCubicSegment 0 new_Spline) = new_Spline" by blast
  show ?thesis using a b c d by simp
qed

section \<open>Inverting the arc length\<close>

text \<open>
  C5, as stated: for every \<open>s\<close> in \<open>[0, length]\<close> the pair the inverter returns
  reproduces \<open>s\<close> within epsilon. This fails on the open spline through \<open>(0,0)\<close>,
  \<open>(3 * 2^40, 0)\<close>, \<open>(6 * 2^40, 0)\<close>, \<open>(9 * 2^40, 0)\<close> at \<open>s = 4 * 2^40\<close>: the
  fifty iterations end at a parameter whose forward arc length is \<open>1/1024\<close> short of
  \<open>s\<close>. The stop on the iteration budget is what the inverter is meant to do; the
  same happens on all four knots on a line that are far enough apart, and for any other
  tolerance and budget (\<open>line_roundtrip_fails\<close>, \<open>bisect_third_never_met\<close>).
\<close>

theorem invert_roundtrip_counterexample:
  "segments farSpline = buildSegments False farKnots
   \<and> arcLengthTable farSpline = buildTable (segments farSpline)
   \<and> (0 :: real) \<le> 4398046511104
   \<and> 4398046511104 \<le> tableLength (arcLengthTable farSpline)
   \<and> invert (arcLengthTable farSpline) (segments farSpline) 4398046511104
       = Some (1, 375299968947541 / 1125899906842624)
   \<and> \<not> \<bar>forwardLength (arcLengthTable farSpline) (segments farSpline)
            (1, 375299968947541 / 1125899906842624) - 4398046511104\<bar> < epsilon"
proof -
  have a: "arcLengthTable farSpline = buildTable (segments farSpline)"
    by (simp add: farSpline_eval far_table)
  have b: "4398046511104 \<le> tableLength (arcLengthTable farSpline)"
    by (simp add: farSpline_eval tableLength_def)
  have c: "invert (arcLengthTable farSpline) (segments farSpline) 4398046511104
       = Some (1, 375299968947541 / 1125899906842624)"
    by (simp add: invert_def far_search Let_def) (simp add: farSpline_eval far_segments)
  have d: "forwardLength (arcLengthTable farSpline) (segments farSpline)
            (1, 375299968947541 / 1125899906842624) = 4398046511104 - 1 / 1024"
    by (simp add: forwardLength_def farSpline_eval(1) far_middle)
       (simp add: farSpline_eval tableBefore_def)
  have e: "\<not> \<bar>forwardLength (arcLengthTable farSpline) (segments farSpline)
            (1, 375299968947541 / 1125899906842624) - 4398046511104\<bar> < epsilon"
    unfolding d by (simp add: epsilon_def)
  have z: "(0 :: real) \<le> 4398046511104" by simp
  show ?thesis
    using farSpline_eval(1) a z b c e by blast
qed

text \<open>
  C5, amended: the inverter clamps \<open>s\<close> to \<open>[0, length]\<close> (so a request out of range
  gets the answer of the nearest end) and returns a segment index within range and a
  parameter in \<open>[0,1]\<close>. The table entry before the segment plus the arc length of the
  segment from \<open>0\<close> to that parameter reproduces the clamped \<open>s\<close> within epsilon or,
  when the iteration budget ended the search first, within \<open>18 * D / 2^maxIterations\<close>,
  where \<open>D\<close> is the largest control step of the spline: the bracket left by the last
  halving still encloses the target. So the round trip is within epsilon for every \<open>s\<close>
  as soon as \<open>18 * D < epsilon * 2^maxIterations\<close>.
\<close>

theorem invert_roundtrip_within_budget:
  "gs \<noteq> [] \<longrightarrow>
     0 \<le> clampTo 0 (tableLength (buildTable gs)) s
     \<and> clampTo 0 (tableLength (buildTable gs)) s \<le> tableLength (buildTable gs)
     \<and> (\<exists>idx t. invert (buildTable gs) gs s = Some (idx, t) \<and> idx < length gs \<and> 0 \<le> t \<and> t \<le> 1
          \<and> invert (buildTable gs) gs (clampTo 0 (tableLength (buildTable gs)) s) = Some (idx, t)
          \<and> (\<bar>forwardLength (buildTable gs) gs (idx, t) - clampTo 0 (tableLength (buildTable gs)) s\<bar>
                < epsilon
              \<or> \<bar>forwardLength (buildTable gs) gs (idx, t) - clampTo 0 (tableLength (buildTable gs)) s\<bar>
                \<le> 18 * maxControlStep gs / 2 ^ maxIterations)
          \<and> (18 * maxControlStep gs < epsilon * 2 ^ maxIterations \<longrightarrow>
                \<bar>forwardLength (buildTable gs) gs (idx, t) - clampTo 0 (tableLength (buildTable gs)) s\<bar>
                  < epsilon))"
proof
  assume n: "gs \<noteq> []"
  let ?T = "buildTable gs"
  let ?L = "tableLength ?T"
  let ?s = "clampTo 0 ?L s"
  let ?idx = "locate ?T ?s"
  let ?t = "fst (invertSearch ?T gs s)"
  let ?E = "\<bar>forwardLength ?T gs (?idx, ?t) - ?s\<bar>"
  have L: "0 \<le> ?L" by (rule tableLength_nonneg)
  have cr: "0 \<le> ?s \<and> ?s \<le> ?L" using clampTo_range [OF L] by simp
  have ci: "clampTo 0 ?L ?s = ?s" using clampTo_idem [OF L] by simp
  have lt: "localTarget ?T ?s = localTarget ?T s"
    by (simp add: localTarget_def ci)
  have se: "invertSearch ?T gs ?s = invertSearch ?T gs s"
    by (simp add: invertSearch_def lt del: bisect.simps)
  have iv: "invert ?T gs s = Some (?idx, ?t)" "?idx < length gs"
    using invert_some [OF n, of s] by simp_all
  have iv': "invert ?T gs ?s = Some (?idx, ?t)"
    using invert_some [OF n, of ?s] by (simp add: ci se)
  have r: "0 \<le> ?t \<and> ?t \<le> 1"
    by (simp add: invertSearch_def split_def Let_def bisect_range del: bisect.simps)
  have fl: "forwardLength ?T gs (?idx, ?t) - ?s
      = arcLength (gs ! fst (localTarget ?T s)) 0 ?t - snd (localTarget ?T s)"
    by (simp add: forwardLength_def localTarget_def Let_def)
  have e: "?E < epsilon \<or> ?E \<le> 18 * maxControlStep gs / 2 ^ maxIterations"
    using invertSearch_error [OF n, of s] unfolding fl by blast
  have c: "?E < epsilon" if b: "18 * maxControlStep gs < epsilon * 2 ^ maxIterations"
  proof -
    have "18 * maxControlStep gs / 2 ^ maxIterations < epsilon"
      using b by (simp add: field_simps)
    then show ?thesis using e by linarith
  qed
  show "0 \<le> ?s \<and> ?s \<le> ?L
     \<and> (\<exists>idx t. invert ?T gs s = Some (idx, t) \<and> idx < length gs \<and> 0 \<le> t \<and> t \<le> 1
          \<and> invert ?T gs ?s = Some (idx, t)
          \<and> (\<bar>forwardLength ?T gs (idx, t) - ?s\<bar> < epsilon
              \<or> \<bar>forwardLength ?T gs (idx, t) - ?s\<bar> \<le> 18 * maxControlStep gs / 2 ^ maxIterations)
          \<and> (18 * maxControlStep gs < epsilon * 2 ^ maxIterations \<longrightarrow>
                \<bar>forwardLength ?T gs (idx, t) - ?s\<bar> < epsilon))"
    using cr iv iv' r e c by blast
qed

theorem invert_roundtrip_within_budget_witness:
  "buildSegments False nearKnots \<noteq> []
   \<and> 18 * maxControlStep (buildSegments False nearKnots) < epsilon * 2 ^ maxIterations
   \<and> invert (buildTable (buildSegments False nearKnots)) (buildSegments False nearKnots) 4
       = Some (1, 349525 / 1048576)
   \<and> \<bar>forwardLength (buildTable (buildSegments False nearKnots)) (buildSegments False nearKnots)
         (1, 349525 / 1048576) - 4\<bar> < epsilon
   \<and> clampTo 0 (tableLength (buildTable (buildSegments False nearKnots))) 100 = 9
   \<and> (\<exists>idx t. invert (buildTable (buildSegments False nearKnots)) (buildSegments False nearKnots) 100
          = Some (idx, t)
        \<and> invert (buildTable (buildSegments False nearKnots)) (buildSegments False nearKnots) 9
          = Some (idx, t)
        \<and> \<bar>forwardLength (buildTable (buildSegments False nearKnots)) (buildSegments False nearKnots)
              (idx, t) - 9\<bar> < epsilon)"
proof -
  let ?gs = "buildSegments False nearKnots"
  let ?T = "buildTable ?gs"
  have n: "?gs \<noteq> []" by (simp add: near_segments)
  have b: "18 * maxControlStep ?gs < epsilon * 2 ^ maxIterations"
    by (simp add: near_maxControlStep epsilon_def maxIterations_def)
  have iv: "invert ?T ?gs 4 = Some (1, 349525 / 1048576)"
    by (simp add: invert_def near_search_third Let_def) (simp add: near_segments)
  have c4: "clampTo 0 (tableLength ?T) 4 = 4"
    by (simp add: near_table tableLength_def clampTo_def)
  have c100: "clampTo 0 (tableLength ?T) 100 = 9"
    by (simp add: near_table tableLength_def clampTo_def)
  from invert_roundtrip_within_budget [of ?gs 4] n b
  obtain idx t where h: "invert ?T ?gs 4 = Some (idx, t)"
    "\<bar>forwardLength ?T ?gs (idx, t) - clampTo 0 (tableLength ?T) 4\<bar> < epsilon"
    by blast
  from h(1) iv have "idx = 1" "t = 349525 / 1048576" by simp_all
  with h(2) have 1: "\<bar>forwardLength ?T ?gs (1, 349525 / 1048576) - 4\<bar> < epsilon"
    by (simp only: c4)
  from invert_roundtrip_within_budget [of ?gs 100] n b
  obtain idx' t' where h': "invert ?T ?gs 100 = Some (idx', t')"
    "invert ?T ?gs (clampTo 0 (tableLength ?T) 100) = Some (idx', t')"
    "\<bar>forwardLength ?T ?gs (idx', t') - clampTo 0 (tableLength ?T) 100\<bar> < epsilon"
    by blast
  have 2: "\<exists>idx t. invert ?T ?gs 100 = Some (idx, t) \<and> invert ?T ?gs 9 = Some (idx, t)
        \<and> \<bar>forwardLength ?T ?gs (idx, t) - 9\<bar> < epsilon"
    using h' unfolding c100 by blast
  show ?thesis using n b iv 1 c100 2 by blast
qed

section \<open>Evaluation of a segment\<close>

text \<open>
  C6. A segment evaluates the cubic Bernstein form componentwise on \<open>[0,1]\<close>; at
  \<open>0\<close> it yields \<open>p0\<close> and at \<open>1\<close> it yields \<open>p1\<close>, and a parameter outside
  \<open>[0,1]\<close> gives the value at the nearest end. For every segment \<open>i\<close> of a spline on
  at least three knots these ends are knot \<open>i\<close> and knot \<open>i + 1\<close> (the first knot again
  for the last segment of a closed spline).
\<close>

theorem segment_interpolates_endpoints:
  "getX g 0 = fst (p0 g) \<and> getY g 0 = snd (p0 g)
   \<and> getX g 1 = fst (p1 g) \<and> getY g 1 = snd (p1 g)
   \<and> (t < 0 \<longrightarrow> getX g t = getX g 0 \<and> getY g t = getY g 0)
   \<and> (1 < t \<longrightarrow> getX g t = getX g 1 \<and> getY g t = getY g 1)
   \<and> (0 \<le> t \<and> t \<le> 1 \<longrightarrow>
        getX g t = (1 - t) ^ 3 * fst (p0 g) + 3 * (1 - t) ^ 2 * t * fst (c0 g)
                   + 3 * (1 - t) * t ^ 2 * fst (c1 g) + t ^ 3 * fst (p1 g)
        \<and> getY g t = (1 - t) ^ 3 * snd (p0 g) + 3 * (1 - t) ^ 2 * t * snd (c0 g)
                   + 3 * (1 - t) * t ^ 2 * snd (c1 g) + t ^ 3 * snd (p1 g))
   \<and> (3 \<le> length ks \<and> i < length (buildSegments cl ks) \<longrightarrow>
        getX (buildSegments cl ks ! i) 0 = fst (ks ! i)
        \<and> getY (buildSegments cl ks ! i) 0 = snd (ks ! i)
        \<and> getX (buildSegments cl ks ! i) 1 = fst (ks ! ((i + 1) mod length ks))
        \<and> getY (buildSegments cl ks ! i) 1 = snd (ks ! ((i + 1) mod length ks))
        \<and> (\<not> cl \<longrightarrow> (i + 1) mod length ks = i + 1))"
proof -
  have e: "getX g 0 = fst (p0 g) \<and> getY g 0 = snd (p0 g)
      \<and> getX g 1 = fst (p1 g) \<and> getY g 1 = snd (p1 g)" for g
    by (simp add: getX_def getY_def bernstein_def clamp01_simps)
  have c: "(t < 0 \<longrightarrow> getX g t = getX g 0 \<and> getY g t = getY g 0)
      \<and> (1 < t \<longrightarrow> getX g t = getX g 1 \<and> getY g t = getY g 1)"
    by (simp add: getX_def getY_def clamp01_simps)
  have b: "0 \<le> t \<and> t \<le> 1 \<longrightarrow>
        getX g t = (1 - t) ^ 3 * fst (p0 g) + 3 * (1 - t) ^ 2 * t * fst (c0 g)
                   + 3 * (1 - t) * t ^ 2 * fst (c1 g) + t ^ 3 * fst (p1 g)
        \<and> getY g t = (1 - t) ^ 3 * snd (p0 g) + 3 * (1 - t) ^ 2 * t * snd (c0 g)
                   + 3 * (1 - t) * t ^ 2 * snd (c1 g) + t ^ 3 * snd (p1 g)"
    by (simp add: getX_def getY_def bernstein_def clamp01_simps)
  have k: "3 \<le> length ks \<and> i < length (buildSegments cl ks) \<longrightarrow>
        getX (buildSegments cl ks ! i) 0 = fst (ks ! i)
        \<and> getY (buildSegments cl ks ! i) 0 = snd (ks ! i)
        \<and> getX (buildSegments cl ks ! i) 1 = fst (ks ! ((i + 1) mod length ks))
        \<and> getY (buildSegments cl ks ! i) 1 = snd (ks ! ((i + 1) mod length ks))
        \<and> (\<not> cl \<longrightarrow> (i + 1) mod length ks = i + 1)"
  proof (intro impI, elim conjE)
    assume h: "3 \<le> length ks" "i < length (buildSegments cl ks)"
    have m: "\<not> cl \<longrightarrow> (i + 1) mod length ks = i + 1"
      using h by (auto simp: length_buildSegments)
    show "getX (buildSegments cl ks ! i) 0 = fst (ks ! i)
        \<and> getY (buildSegments cl ks ! i) 0 = snd (ks ! i)
        \<and> getX (buildSegments cl ks ! i) 1 = fst (ks ! ((i + 1) mod length ks))
        \<and> getY (buildSegments cl ks ! i) 1 = snd (ks ! ((i + 1) mod length ks))
        \<and> (\<not> cl \<longrightarrow> (i + 1) mod length ks = i + 1)"
      using m by (simp add: e buildSegments_nth [OF h] buildSegment_ends)
  qed
  show ?thesis using e [of g] c b k by blast
qed

theorem segment_interpolates_endpoints_witness:
  "getX exampleSegment 0 = 0 \<and> getY exampleSegment 1 = 6
   \<and> getX exampleSegment (- 1) = 0 \<and> getY exampleSegment 2 = 6
   \<and> getX exampleSegment (1 / 2) = 17 / 8 \<and> getY exampleSegment (1 / 2) = 3
   \<and> getX (buildSegments False exampleKnots ! 1) 0 = 10
   \<and> getY (buildSegments False exampleKnots ! 1) 1 = 10
   \<and> getX (buildSegments True exampleKnots ! 3) 1 = 0
   \<and> getY (buildSegments True exampleKnots ! 3) 0 = 10"
proof -
  have a: "getX exampleSegment 0 = 0 \<and> getY exampleSegment 1 = 6
      \<and> getX exampleSegment (- 1) = 0 \<and> getY exampleSegment 2 = 6"
    using segment_interpolates_endpoints [of exampleSegment "- 1" exampleKnots 1 False]
      segment_interpolates_endpoints [of exampleSegment 2 exampleKnots 1 False]
    by (simp add: exampleSegment_def)
  have b: "getX exampleSegment (1 / 2) = 17 / 8 \<and> getY exampleSegment (1 / 2) = 3"
    using segment_interpolates_endpoints [of exampleSegment "1 / 2" exampleKnots 1 False]
    by (simp add: exampleSegment_def power3_eq_cube power2_eq_square)
  have c: "getX (buildSegments False exampleKnots ! 1) 0 = 10
      \<and> getY (buildSegments False exampleKnots ! 1) 1 = 10"
    using segment_interpolates_endpoints [of exampleSegment 0 exampleKnots 1 False]
    by (simp add: length_buildSegments exampleKnots_def)
  have d: "getX (buildSegments True exampleKnots ! 3) 1 = 0
      \<and> getY (buildSegments True exampleKnots ! 3) 0 = 10"
    using segment_interpolates_endpoints [of exampleSegment 0 exampleKnots 3 True]
    by (simp add: length_buildSegments exampleKnots_def)
  show ?thesis using a b c d by simp
qed

section \<open>Totality of the numerical routines\<close>



section \<open>Dragging a marker\<close>

text \<open>
  C8. The marker-moved callback clears the spline and draws it again: all current
  marker coordinates are added with \<open>addControlPoint\<close>, so the rebuilt knot sequence is
  the sequence of marker positions, in the order of the marker array, whatever the
  spline held before; the markers themselves are not touched.
\<close>

theorem marker_moved_rebuilds_spline:
  assumes "numKnots st = int (length (markers st))" "3 \<le> numKnots st"
    "\<forall>m \<in> set (markers st). markerShape m \<noteq> None" "splineGraphics st \<noteq> None"
  shows "\<exists>st'. onMarkerMoved mid x y st = Inr st'
       \<and> onMarkerMoved mid x y st = drawSpline (st\<lparr>spline := spline_clear (spline st)\<rparr>)
       \<and> knots (spline_clear (spline st)) = []
       \<and> map (\<lambda>p. Inr (fst p)) (knots (spline st')) = map get_x (markers st)
       \<and> map (\<lambda>p. Inr (snd p)) (knots (spline st')) = map get_y (markers st)
       \<and> markers st' = markers st
       \<and> segments (spline st') = buildSegments (closed (spline st)) (knots (spline st'))
       \<and> splineGraphics st' =
           Some (LineStyle 2 BEZIER_LINE_COLOR 1 #
                 concat (map (\<lambda>i. drawBezier (segments (spline st') ! i))
                           [0 ..< length (markers st) - 1]))"
proof -
  define st2 where "st2 = st\<lparr>spline := spline_clear (spline st)\<rparr>"
  have h: "\<forall>m \<in> set (markers st2). markerShape m \<noteq> None"
    "numKnots st2 = int (length (markers st2))" "3 \<le> numKnots st2"
    "splineGraphics st2 \<noteq> None" "knots (spline st2) = []"
    using assms by (simp_all add: st2_def spline_clear_def)
  from drawSpline_result [OF h] obtain ps where
    px: "map (\<lambda>p. Inr (fst p)) ps = map get_x (markers st2)"
    and py: "map (\<lambda>p. Inr (snd p)) ps = map get_y (markers st2)"
    and dr: "drawSpline st2 =
                Inr (st2\<lparr>spline := recompute ((spline st2)\<lparr>knots := ps, invalidated := True\<rparr>),
                        splineGraphics :=
                          Some (LineStyle 2 BEZIER_LINE_COLOR 1 #
                                concat (map (\<lambda>k. drawBezier (buildSegments (closed (spline st2)) ps ! k))
                                          [0 ..< length (markers st2) - 1]))\<rparr>)"
    by blast
  define st' where "st' = st2\<lparr>spline := recompute ((spline st2)\<lparr>knots := ps, invalidated := True\<rparr>),
                        splineGraphics :=
                          Some (LineStyle 2 BEZIER_LINE_COLOR 1 #
                                concat (map (\<lambda>k. drawBezier (buildSegments (closed (spline st2)) ps ! k))
                                          [0 ..< length (markers st2) - 1]))\<rparr>"
  have dr': "drawSpline st2 = Inr st'" unfolding st'_def by (rule dr)
  have om: "onMarkerMoved mid x y st = drawSpline st2"
    by (simp add: onMarkerMoved_def st2_def)
  have m2: "markers st2 = markers st" "closed (spline st2) = closed (spline st)"
    by (simp_all add: st2_def spline_clear_def)
  have kn: "knots (spline st') = ps" by (simp add: st'_def recompute_def)
  have sg: "segments (spline st') = buildSegments (closed (spline st)) ps"
    by (simp add: st'_def recompute_def m2)
  have gx: "splineGraphics st' =
           Some (LineStyle 2 BEZIER_LINE_COLOR 1 #
                 concat (map (\<lambda>i. drawBezier (segments (spline st') ! i))
                           [0 ..< length (markers st) - 1]))"
    by (simp add: sg) (simp add: st'_def m2)
  have ms: "markers st' = markers st" by (simp add: st'_def m2)
  have kc: "knots (spline_clear (spline st)) = []" by (simp add: spline_clear_def)
  show ?thesis
    apply (rule exI [of _ st'])
    using om dr' px py kn sg gx ms kc m2 by (simp add: st2_def [symmetric])
qed

theorem marker_moved_rebuilds_spline_witness:
  "\<exists>st'. onMarkerMoved None 20 30 exampleDragged = Inr st'
       \<and> map (\<lambda>p. Inr (fst p)) (knots (spline st')) = [Inr 0, Inr 10, Inr 20, Inr 0 :: js_error + real]
       \<and> map (\<lambda>p. Inr (snd p)) (knots (spline st')) = [Inr 0, Inr 0, Inr 30, Inr 10 :: js_error + real]
       \<and> markers st' = markers exampleDragged"
proof -
  have h: "numKnots exampleDragged = int (length (markers exampleDragged))"
    "3 \<le> numKnots exampleDragged"
    "\<forall>m \<in> set (markers exampleDragged). markerShape m \<noteq> None"
    "splineGraphics exampleDragged \<noteq> None"
    using exampleDragged_eval(6) by (simp_all add: exampleDragged_eval(1,2,3))
  from marker_moved_rebuilds_spline [OF h, of None 20 30]
  show ?thesis by (auto simp: exampleDragged_eval(4,5))
qed

section \<open>The knot ceiling\<close>

text \<open>
  C9. The ceiling \<open>MAX_KNOTS\<close> is 8 and in every reachable state the knot counter is at
  most 8 and equals the number of markers. A stage click below the ceiling appends
  exactly one marker, placed at the pointer, and increments the counter by one; a click
  at the ceiling leaves the markers and the counter unchanged.
\<close>

theorem knot_count_ceiling:
  "MAX_KNOTS = 8
   \<and> (reachable st \<longrightarrow> numKnots st \<le> MAX_KNOTS \<and> numKnots st = int (length (markers st)))
   \<and> (numKnots st < MAX_KNOTS \<and> markerContainer st \<noteq> None \<longrightarrow>
        (\<exists>m st'. onStageClicked evt st = Inr st' \<and> markers st' = markers st @ [m]
            \<and> numKnots st' = numKnots st + 1
            \<and> get_x m = Inr (global_x evt) \<and> get_y m = Inr (global_y evt)))
   \<and> (\<not> numKnots st < MAX_KNOTS \<longrightarrow>
        (\<exists>st'. onStageClicked evt st = Inr st' \<and> markers st' = markers st
            \<and> numKnots st' = numKnots st \<and> markerContainer st' = markerContainer st))"
proof -
  have a: "reachable st \<longrightarrow> numKnots st \<le> MAX_KNOTS \<and> numKnots st = int (length (markers st))"
    by (auto simp: knotInv_def dest: reachable_inv)
  have b: "numKnots st < MAX_KNOTS \<and> markerContainer st \<noteq> None \<longrightarrow>
        (\<exists>m st'. onStageClicked evt st = Inr st' \<and> markers st' = markers st @ [m]
            \<and> numKnots st' = numKnots st + 1
            \<and> get_x m = Inr (global_x evt) \<and> get_y m = Inr (global_y evt))"
    by (auto simp: onStageClicked_below markerAt_shape)
  have c: "\<not> numKnots st < MAX_KNOTS \<longrightarrow>
        (\<exists>st'. onStageClicked evt st = Inr st' \<and> markers st' = markers st
            \<and> numKnots st' = numKnots st \<and> markerContainer st' = markerContainer st)"
    by (simp add: onStageClicked_ceiling)
  have d: "MAX_KNOTS = 8" by (simp add: MAX_KNOTS_def)
  show ?thesis using a b c d by blast
qed

theorem knot_count_ceiling_witness:
  "reachable exampleStart \<and> numKnots exampleStart = 0
   \<and> (\<exists>m st'. onStageClicked \<lparr>global_x = 3, global_y = 4\<rparr> exampleStart = Inr st'
         \<and> markers st' = [m] \<and> numKnots st' = 1 \<and> get_x m = Inr 3 \<and> get_y m = Inr 4)
   \<and> reachable exampleEight \<and> numKnots exampleEight = 8
   \<and> (\<exists>st'. onStageClicked \<lparr>global_x = 3, global_y = 4\<rparr> exampleEight = Inr st'
         \<and> length (markers st') = 8 \<and> numKnots st' = 8)"
proof -
  let ?e = "\<lparr>global_x = 3, global_y = 4\<rparr>"
  have below: "numKnots exampleStart < MAX_KNOTS \<and> markerContainer exampleStart \<noteq> None"
    by (simp add: exampleStart_eval MAX_KNOTS_def)
  have full: "\<not> numKnots exampleEight < MAX_KNOTS"
    by (simp add: exampleEight_eval MAX_KNOTS_def)
  from knot_count_ceiling [of exampleStart ?e] below
  obtain m st1 where c1: "onStageClicked ?e exampleStart = Inr st1"
    "markers st1 = markers exampleStart @ [m]" "numKnots st1 = numKnots exampleStart + 1"
    "get_x m = Inr (global_x ?e)" "get_y m = Inr (global_y ?e)"
    by blast
  from knot_count_ceiling [of exampleEight ?e] full
  obtain st8 where c8: "onStageClicked ?e exampleEight = Inr st8"
    "markers st8 = markers exampleEight" "numKnots st8 = numKnots exampleEight"
    by blast
  have a: "\<exists>m st'. onStageClicked ?e exampleStart = Inr st'
         \<and> markers st' = [m] \<and> numKnots st' = 1 \<and> get_x m = Inr 3 \<and> get_y m = Inr 4"
    using c1 by (simp add: exampleStart_eval)
  have b: "\<exists>st'. onStageClicked ?e exampleEight = Inr st'
         \<and> length (markers st') = 8 \<and> numKnots st' = 8"
    using c8 by (simp add: exampleEight_eval)
  show ?thesis
    using a b reachable_exampleStart reachable_exampleEight
    by (simp add: exampleStart_eval(1) exampleEight_eval(1))
qed

section \<open>Marker: reading and writing coordinates without a shape\<close>

text \<open>
  C10. While the internal shape is null (before \<open>create\<close>, after \<open>clear\<close>), reading
  \<open>x\<close> or \<open>y\<close> dereferences null and fails, while writing \<open>x\<close> or \<open>y\<close> and
  \<open>setCoords\<close> change nothing. With a shape, a \<open>NaN\<close> argument leaves the previous
  coordinate in place, and a number is stored.
\<close>

theorem marker_null_shape_access:
  "markerShape Marker = None \<and> markerShape (marker_clear m) = None
   \<and> (markerShape m = None \<longrightarrow>
        get_x m = Inl TypeError \<and> get_y m = Inl TypeError
        \<and> set_x v m = m \<and> set_y v m = m \<and> setCoords vx vy m = m)
   \<and> (markerShape m = Some s \<longrightarrow>
        get_x (set_x NaN m) = Inr (shape_x s) \<and> get_y (set_y NaN m) = Inr (shape_y s)
        \<and> set_x NaN m = m \<and> set_y NaN m = m \<and> setCoords NaN NaN m = m
        \<and> get_x (setCoords NaN (Num b) m) = Inr (shape_x s)
        \<and> get_y (setCoords NaN (Num b) m) = Inr b
        \<and> get_x (setCoords (Num a) NaN m) = Inr a
        \<and> get_y (setCoords (Num a) NaN m) = Inr (shape_y s))"
  by (simp add: Marker_def marker_clear_def get_x_def get_y_def set_x_def set_y_def
      setCoords_def Let_def split: option.splits)

theorem marker_null_shape_access_witness:
  "markerShape Marker = None
   \<and> get_x Marker = Inl TypeError \<and> get_y (marker_clear (snd (marker_create 8 ''#ff3300'' Marker))) = Inl TypeError
   \<and> set_x (Num 5) Marker = Marker
   \<and> markerShape (snd (marker_create 8 ''#ff3300'' Marker)) = Some (fst (marker_create 8 ''#ff3300'' Marker))
   \<and> get_x (setCoords (Num 3) NaN (snd (marker_create 8 ''#ff3300'' Marker))) = Inr 3
   \<and> get_y (setCoords (Num 3) NaN (snd (marker_create 8 ''#ff3300'' Marker))) = Inr 0"
proof -
  have c: "markerShape (snd (marker_create 8 ''#ff3300'' Marker))
           = Some (fst (marker_create 8 ''#ff3300'' Marker))"
    by (simp add: marker_create_def Let_def)
  have y0: "shape_y (fst (marker_create 8 ''#ff3300'' Marker)) = 0"
    by (simp add: marker_create_def Let_def makeDraggable_def new_Graphics_def)
  have n: "markerShape Marker = None"
    by (simp add: Marker_def)
  show ?thesis
    using marker_null_shape_access [of Marker "Num 5" "Num 5" "Num 5" undefined 0 3] n
      marker_null_shape_access [of "marker_clear (snd (marker_create 8 ''#ff3300'' Marker))"]
      marker_null_shape_access [of "snd (marker_create 8 ''#ff3300'' Marker)" "Num 5" "Num 5" "Num 5"
        "fst (marker_create 8 ''#ff3300'' Marker)" 0 3] c y0
    by simp
qed

end
